theory Spec2Isabelle
  imports Complex_Main "HOL-Library.Sublist" "HOL-Library.Log_Nat"
begin

section \<open>Data model (src/models.py)\<close>

datatype SeverityLevel = LOW | MEDIUM | HIGH | CRITICAL

text \<open>The \<open>.value\<close> of each member of the string enum \<open>SeverityLevel\<close>.\<close>

fun severity_value :: "SeverityLevel \<Rightarrow> string" where
  "severity_value LOW = ''Low''"
| "severity_value MEDIUM = ''Medium''"
| "severity_value HIGH = ''High''"
| "severity_value CRITICAL = ''Critical''"

text \<open>
  \<open>DocumentIssue\<close>: the field \<open>section\<close> is a reserved word of the theory language, so
  every field carries the prefix \<open>i_\<close>.
\<close>

record DocumentIssue =
  i_document :: string
  i_section :: "string option"
  i_issue :: string
  i_severity :: SeverityLevel
  i_suggestion :: "string option"
  i_adgm_reference :: "string option"
  i_line_number :: "int option"

section \<open>Double-precision arithmetic\<close>

text \<open>
  A Python \<open>float\<close> is a binary double: a number \<open>m * 2 ^ e\<close> with an integer \<open>m\<close> of at
  most 53 bits. Every arithmetic operation on floats returns the double nearest to the
  exact result, a tie going to the even \<open>m\<close>. The doubles are modelled as the rationals of
  this form; the bounds of the exponent of a double (about \<open>10 ^ 308\<close> either way) are
  not modelled, they are out of reach of a count of words or of issues.

  \<open>ilog2 x\<close> is the exponent of the leading bit of \<open>x\<close>, read off the bit lengths of
  numerator and denominator and corrected by one comparison.
\<close>

definition round_half_even :: "rat \<Rightarrow> int" where
  "round_half_even x =
     (let f = \<lfloor>x\<rfloor>; d = x - of_int f
      in if d < 1 / 2 then f
         else if 1 / 2 < d then f + 1
         else if even f then f else f + 1)"

definition ilog2 :: "rat \<Rightarrow> int" where
  "ilog2 x =
     (let (p, q) = quotient_of \<bar>x\<bar>;
          b = bitlen p - bitlen q
      in if 2 powi b \<le> \<bar>x\<bar> then b else b - 1)"

text \<open>The spacing of the doubles around \<open>x\<close>: 52 binary places below the leading bit.\<close>

definition ulp_at :: "rat \<Rightarrow> rat" where
  "ulp_at x = 2 powi (ilog2 x - 52)"

definition nearest_double :: "rat \<Rightarrow> rat" where
  "nearest_double x =
     (if x = 0 then 0 else of_int (round_half_even (x / ulp_at x)) * ulp_at x)"

section \<open>Scoring (src/core/processing\_engine.py, \_calculate\_compliance\_score)\<close>

text \<open>
  \<open>round(x, 1)\<close> on a float: the exact value of \<open>x\<close> is rounded to the nearest multiple
  of one tenth, an exact tie going to the even multiple, and the result is the double
  nearest to that decimal number.
\<close>

definition py_round1 :: "rat \<Rightarrow> rat" where
  "py_round1 x = nearest_double (of_int (round_half_even (x * 10)) / 10)"

fun severity_weights :: "SeverityLevel \<Rightarrow> int" where
  "severity_weights LOW = 1"
| "severity_weights MEDIUM = 3"
| "severity_weights HIGH = 7"
| "severity_weights CRITICAL = 15"

text \<open>
  \<open>word_count / 100\<close> divides two integers and returns the double nearest to the
  quotient. \<open>max(word_count / 100, 1)\<close> is that double when it is at least 1 and the integer
  1 otherwise. \<open>total_penalty / ...\<close> then divides the integer by a double, which converts
  the integer to the nearest double and rounds the quotient, or divides it by the integer 1.
  \<open>100 - normalized_penalty\<close> is rounded once more, and \<open>max(0, ...)\<close> and \<open>round\<close>
  follow.
\<close>

definition calculate_compliance_score :: "DocumentIssue list \<Rightarrow> int \<Rightarrow> rat" where
  "calculate_compliance_score issues word_count =
     (if issues = [] then 100
      else
        let total_penalty = sum_list (map (\<lambda>i. severity_weights (i_severity i)) issues);
            per_100_words = nearest_double (of_int word_count / 100);
            normalized_penalty =
              (if 1 \<le> per_100_words
               then nearest_double (nearest_double (of_int total_penalty) / per_100_words)
               else nearest_double (of_int total_penalty));
            score = max 0 (nearest_double (100 - normalized_penalty))
        in py_round1 score)"

section \<open>Deduplication (src/core/processing\_engine.py, \_deduplicate\_issues)\<close>

text \<open>
  The signature is the f-string \<open>f"{issue.section}_{issue.issue}_{issue.severity.value}"\<close>;
  an absent section is formatted as the text \<open>None\<close>.
\<close>

definition signature :: "DocumentIssue \<Rightarrow> string" where
  "signature i =
     (case i_section i of None \<Rightarrow> ''None'' | Some s \<Rightarrow> s)
       @ ''_'' @ i_issue i @ ''_'' @ severity_value (i_severity i)"

text \<open>The loop, with its two variables \<open>seen_issues\<close> and \<open>unique_issues\<close>.\<close>

fun dedup_loop :: "DocumentIssue list \<Rightarrow> string set \<Rightarrow> DocumentIssue list \<Rightarrow> DocumentIssue list" where
  "dedup_loop [] seen_issues unique_issues = unique_issues"
| "dedup_loop (i # rest) seen_issues unique_issues =
     (if signature i \<notin> seen_issues
      then dedup_loop rest (insert (signature i) seen_issues) (unique_issues @ [i])
      else dedup_loop rest seen_issues unique_issues)"

definition deduplicate_issues :: "DocumentIssue list \<Rightarrow> DocumentIssue list" where
  "deduplicate_issues issues = dedup_loop issues {} []"

text \<open>The key the specification names: section, issue text and severity.\<close>

definition issue_triple :: "DocumentIssue \<Rightarrow> string option \<times> string \<times> SeverityLevel" where
  "issue_triple i = (i_section i, i_issue i, i_severity i)"

text \<open>Two issues with different triples and the same signature \<open>a_b_c_High\<close>.\<close>

definition clash_a :: DocumentIssue where
  "clash_a = \<lparr>i_document = ''Other'', i_section = Some ''a_b'', i_issue = ''c'', i_severity = HIGH,
      i_suggestion = None, i_adgm_reference = None, i_line_number = None\<rparr>"

definition clash_b :: DocumentIssue where
  "clash_b = \<lparr>i_document = ''Other'', i_section = Some ''a'', i_issue = ''b_c'', i_severity = HIGH,
      i_suggestion = None, i_adgm_reference = None, i_line_number = None\<rparr>"

text \<open>An issue without a section and an issue whose section is the text \<open>None\<close>.\<close>

definition none_a :: DocumentIssue where
  "none_a = \<lparr>i_document = ''Other'', i_section = None, i_issue = ''c'', i_severity = HIGH,
      i_suggestion = None, i_adgm_reference = None, i_line_number = None\<rparr>"

definition none_b :: DocumentIssue where
  "none_b = \<lparr>i_document = ''Other'', i_section = Some ''None'', i_issue = ''c'', i_severity = HIGH,
      i_suggestion = None, i_adgm_reference = None, i_line_number = None\<rparr>"

section \<open>Python text primitives\<close>

text \<open>
  A Python \<open>str\<close> is modelled as a \<open>string\<close> whose characters are the code points
  0 to 255. The character classes below are those of \<open>str.isspace\<close>, of the decimal digits
  and of the \<open>re\<close> module's word characters (alphanumeric or underscore) on these code points;
  \<open>str.lower\<close> sets bit 5 of the capital letters \<open>A\<close> to \<open>Z\<close> and of the capital letters
  \<open>0xC0\<close> to \<open>0xDE\<close> (\<open>0xD7\<close>, the multiplication sign, excepted).
\<close>

definition code_point :: "char \<Rightarrow> nat" where
  "code_point c = of_char c"

definition is_space :: "char \<Rightarrow> bool" where
  "is_space c =
     (let n = code_point c
      in (9 \<le> n \<and> n \<le> 13) \<or> (28 \<le> n \<and> n \<le> 32) \<or> n = 133 \<or> n = 160)"

definition is_digit :: "char \<Rightarrow> bool" where
  "is_digit c = (let n = code_point c in 48 \<le> n \<and> n \<le> 57)"

definition is_word :: "char \<Rightarrow> bool" where
  "is_word c =
     (let n = code_point c
      in (48 \<le> n \<and> n \<le> 57) \<or> (65 \<le> n \<and> n \<le> 90) \<or> n = 95 \<or> (97 \<le> n \<and> n \<le> 122)
         \<or> n = 170 \<or> n = 178 \<or> n = 179 \<or> n = 181 \<or> n = 185 \<or> n = 186
         \<or> (188 \<le> n \<and> n \<le> 190) \<or> (192 \<le> n \<and> n \<le> 214)
         \<or> (216 \<le> n \<and> n \<le> 246) \<or> (248 \<le> n \<and> n \<le> 255))"

definition is_upper :: "char \<Rightarrow> bool" where
  "is_upper c =
     (let n = code_point c
      in (65 \<le> n \<and> n \<le> 90) \<or> (192 \<le> n \<and> n \<le> 214) \<or> (216 \<le> n \<and> n \<le> 222))"

definition lower_char :: "char \<Rightarrow> char" where
  "lower_char c =
     (if is_upper c
      then (case c of Char b0 b1 b2 b3 b4 b5 b6 b7 \<Rightarrow> Char b0 b1 b2 b3 b4 True b6 b7)
      else c)"

definition lower :: "string \<Rightarrow> string" where
  "lower s = map lower_char s"

text \<open>\<open>s.strip()\<close>: leading and trailing whitespace removed.\<close>

definition strip :: "string \<Rightarrow> string" where
  "strip s = rev (dropWhile is_space (rev (dropWhile is_space s)))"

text \<open>\<open>s.split()\<close>: the maximal runs of characters that are not whitespace.\<close>

fun split_ws :: "string \<Rightarrow> string list" where
  "split_ws [] = []"
| "split_ws (c # cs) =
     (if is_space c then split_ws cs
      else (case split_ws cs of
              [] \<Rightarrow> [[c]]
            | w # ws \<Rightarrow> (if cs \<noteq> [] \<and> \<not> is_space (hd cs) then (c # w) # ws else [c] # w # ws)))"

text \<open>\<open>strip_prefix s xs\<close>: what follows \<open>s\<close> when \<open>xs\<close> starts with \<open>s\<close>.\<close>

fun strip_prefix :: "string \<Rightarrow> string \<Rightarrow> string option" where
  "strip_prefix [] xs = Some xs"
| "strip_prefix (c # cs) [] = None"
| "strip_prefix (c # cs) (x # xs) = (if c = x then strip_prefix cs xs else None)"

text \<open>\<open>sub in s\<close> on strings: \<open>sub\<close> occurs in \<open>s\<close> as a contiguous block.\<close>

fun py_in :: "string \<Rightarrow> string \<Rightarrow> bool" where
  "py_in sub [] = (sub = [])"
| "py_in sub (c # cs) = (strip_prefix sub (c # cs) \<noteq> None \<or> py_in sub cs)"

text \<open>\<open>s.find(sub)\<close>: the least index at which \<open>sub\<close> occurs, \<open>None\<close> for Python's \<open>-1\<close>.\<close>

fun find_index_of :: "string \<Rightarrow> string \<Rightarrow> nat option" where
  "find_index_of sub [] = (if sub = [] then Some 0 else None)"
| "find_index_of sub (c # cs) =
     (if strip_prefix sub (c # cs) \<noteq> None then Some 0
      else map_option Suc (find_index_of sub cs))"

text \<open>\<open>s.count(sub)\<close> for a non-empty \<open>sub\<close>: occurrences counted from the left without overlap.\<close>

fun count_from :: "string \<Rightarrow> nat \<Rightarrow> string \<Rightarrow> nat" where
  "count_from sub skip [] = 0"
| "count_from sub skip (c # cs) =
     (case skip of
        Suc k \<Rightarrow> count_from sub k cs
      | 0 \<Rightarrow> (if strip_prefix sub (c # cs) \<noteq> None
              then Suc (count_from sub (length sub - 1) cs)
              else count_from sub 0 cs))"

definition str_count :: "string \<Rightarrow> string \<Rightarrow> nat" where
  "str_count s sub = count_from sub 0 s"

text \<open>\<open>str(n)\<close> for a natural number.\<close>

fun digits_of :: "nat \<Rightarrow> string" where
  "digits_of n =
     (if n < 10 then [char_of (48 + n)] else digits_of (n div 10) @ [char_of (48 + n mod 10)])"

section \<open>Regular expressions (the part of Python's \<open>re\<close> the rule tables use)\<close>

text \<open>
  The patterns of the repository are built from literal text, the classes \<open>\s\<close>, \<open>\d\<close> and
  \<open>.\<close>, greedy repetition of a class (\<open>+\<close>, \<open>*\<close>, \<open>{m,n}\<close>), an optional item \<open>?\<close>,
  alternation, the word boundary \<open>\b\<close>, the anchor \<open>^\<close> and the negative lookahead \<open>(?!...)\<close>.
  A position is the previous character (\<open>None\<close> at the start of the text) and the rest of
  the text. \<open>rmatch r pos\<close> lists the positions at which a match of \<open>r\<close> starting at \<open>pos\<close>
  can end, in the order a backtracking matcher tries them (greedy, left alternative first).
\<close>

datatype cclass = CSpace | CDigit | CAny

fun in_class :: "cclass \<Rightarrow> char \<Rightarrow> bool" where
  "in_class CSpace c = is_space c"
| "in_class CDigit c = is_digit c"
| "in_class CAny c = (c \<noteq> CHR 0x0A)"

datatype regex =
    Str string
  | Cls cclass
  | Rep cclass nat "nat option"
  | WordB
  | Bol
  | Seq regex regex
  | Alt regex regex
  | Opt regex
  | NegLook regex

type_synonym pos = "char option \<times> string"

definition advance :: "pos \<Rightarrow> nat \<Rightarrow> pos" where
  "advance st k = (if k = 0 then st else (Some (snd st ! (k - 1)), drop k (snd st)))"

definition word_before :: "pos \<Rightarrow> bool" where
  "word_before st = (case fst st of None \<Rightarrow> False | Some c \<Rightarrow> is_word c)"

definition word_after :: "pos \<Rightarrow> bool" where
  "word_after st = (case snd st of [] \<Rightarrow> False | c # _ \<Rightarrow> is_word c)"

primrec rmatch :: "regex \<Rightarrow> pos \<Rightarrow> pos list" where
  "rmatch (Str s) =
     (\<lambda>st. case strip_prefix s (snd st) of
             None \<Rightarrow> []
           | Some rest \<Rightarrow> [(if s = [] then fst st else Some (last s), rest)])"
| "rmatch (Cls k) = (\<lambda>st. case snd st of [] \<Rightarrow> [] | c # cs \<Rightarrow> if in_class k c then [(Some c, cs)] else [])"
| "rmatch (Rep k lo hi) =
     (\<lambda>st. let n = length (takeWhile (in_class k) (snd st));
                m = (case hi of None \<Rightarrow> n | Some h \<Rightarrow> min n h)
            in map (advance st) (rev [lo ..< Suc m]))"
| "rmatch WordB = (\<lambda>st. if word_before st \<noteq> word_after st then [st] else [])"
| "rmatch Bol = (\<lambda>st. if fst st = None then [st] else [])"
| "rmatch (Seq a b) = (\<lambda>st. concat (map (rmatch b) (rmatch a st)))"
| "rmatch (Alt a b) = (\<lambda>st. rmatch a st @ rmatch b st)"
| "rmatch (Opt a) = (\<lambda>st. rmatch a st @ [st])"
| "rmatch (NegLook a) = (\<lambda>st. if rmatch a st = [] then [st] else [])"

text \<open>\<open>re.search(r, s)\<close> as a truth value: some position of \<open>s\<close> starts a match.\<close>

fun search_from :: "regex \<Rightarrow> char option \<Rightarrow> string \<Rightarrow> bool" where
  "search_from r p [] = (rmatch r (p, []) \<noteq> [])"
| "search_from r p (c # cs) = (rmatch r (p, c # cs) \<noteq> [] \<or> search_from r (Some c) cs)"

definition re_search :: "regex \<Rightarrow> string \<Rightarrow> bool" where
  "re_search r s = search_from r None s"

text \<open>\<open>re.match(r, s)\<close> as a truth value: a match starts at the beginning of \<open>s\<close>.\<close>

definition re_match :: "regex \<Rightarrow> string \<Rightarrow> bool" where
  "re_match r s = (rmatch r (None, s) \<noteq> [])"

text \<open>
  \<open>re.finditer(r, s)\<close>: the matched texts from left to right, without overlap. At each
  position the first way of matching is taken; \<open>skip\<close> counts the characters of the last
  match that remain to be passed. No pattern of the repository matches the empty text;
  an empty match is reported and the scan moves one character on.
\<close>

fun finditer_from :: "regex \<Rightarrow> nat \<Rightarrow> char option \<Rightarrow> string \<Rightarrow> string list" where
  "finditer_from r skip p [] =
     (if skip = 0 \<and> rmatch r (p, []) \<noteq> [] then [[]] else [])"
| "finditer_from r skip p (c # cs) =
     (case skip of
        Suc k \<Rightarrow> finditer_from r k (Some c) cs
      | 0 \<Rightarrow>
          (case rmatch r (p, c # cs) of
             [] \<Rightarrow> finditer_from r 0 (Some c) cs
           | e # _ \<Rightarrow>
               (let n = length (c # cs) - length (snd e)
                in take n (c # cs) # finditer_from r (n - 1) (Some c) cs)))"

definition finditer :: "regex \<Rightarrow> string \<Rightarrow> string list" where
  "finditer r s = finditer_from r 0 None s"

text \<open>Shorthands for writing the patterns: \<open>\s+\<close>, \<open>\s*\<close>, \<open>\d+\<close>, and a sequence of items.\<close>

definition sp :: regex where
  "sp = Rep CSpace 1 None"

definition sp0 :: regex where
  "sp0 = Rep CSpace 0 None"

definition seqs :: "regex list \<Rightarrow> regex" where
  "seqs rs = foldr Seq rs (Str [])"

text \<open>Words separated by \<open>\s+\<close>, as in \<open>articles\s+of\s+association\<close>.\<close>

fun spaced :: "string list \<Rightarrow> regex" where
  "spaced [] = Str []"
| "spaced [w] = Str w"
| "spaced (w # ws) = Seq (Str w) (Seq sp (spaced ws))"

text \<open>A word with an optional last letter, as in \<open>courts?\<close>.\<close>

definition opt_last :: "string \<Rightarrow> regex" where
  "opt_last w = Seq (Str (butlast w)) (Opt (Str [last w]))"

section \<open>Document types (src/models.py)\<close>

datatype DocumentType =
    ARTICLES_OF_ASSOCIATION
  | MEMORANDUM_OF_ASSOCIATION
  | INCORPORATION_APPLICATION
  | UBO_DECLARATION
  | BOARD_RESOLUTION
  | REGISTER_MEMBERS_DIRECTORS
  | SHAREHOLDER_RESOLUTION
  | CHANGE_ADDRESS_NOTICE
  | EMPLOYMENT_CONTRACT
  | COMMERCIAL_AGREEMENT
  | COMPLIANCE_POLICY
  | OTHER

fun doc_type_value :: "DocumentType \<Rightarrow> string" where
  "doc_type_value ARTICLES_OF_ASSOCIATION = ''Articles of Association''"
| "doc_type_value MEMORANDUM_OF_ASSOCIATION = ''Memorandum of Association''"
| "doc_type_value INCORPORATION_APPLICATION = ''Incorporation Application Form''"
| "doc_type_value UBO_DECLARATION = ''UBO Declaration Form''"
| "doc_type_value BOARD_RESOLUTION = ''Board Resolution Templates''"
| "doc_type_value REGISTER_MEMBERS_DIRECTORS = ''Register of Members and Directors''"
| "doc_type_value SHAREHOLDER_RESOLUTION = ''Shareholder Resolution Templates''"
| "doc_type_value CHANGE_ADDRESS_NOTICE = ''Change of Registered Address Notice''"
| "doc_type_value EMPLOYMENT_CONTRACT = ''Employment Contract''"
| "doc_type_value COMMERCIAL_AGREEMENT = ''Commercial Agreement''"
| "doc_type_value COMPLIANCE_POLICY = ''Compliance Policy''"
| "doc_type_value OTHER = ''Other''"

section \<open>Rule engine (src/core/compliance\_checker.py)\<close>

text \<open>The exceptions a check can raise on the dictionaries it is handed.\<close>

datatype py_error = KeyError string | TypeError | AttributeError string | IndexError

subsection \<open>\_check\_jurisdiction\<close>

definition incorrect_jurisdictions :: "regex list" where
  "incorrect_jurisdictions =
     [ seqs [Str ''uae'', sp, Str ''federal'', sp, opt_last ''courts''],
       seqs [Str ''dubai'', sp, opt_last ''courts''],
       seqs [Str ''abu'', sp, Str ''dhabi'', sp, opt_last ''courts'',
             NegLook (seqs [sp, Str ''global'', sp, Str ''market''])],
       seqs [Str ''emirates'', sp, opt_last ''courts''],
       seqs [Str ''federal'', sp, opt_last ''courts'', sp, Str ''of'', sp, Str ''uae''] ]"

definition adgm_patterns :: "regex list" where
  "adgm_patterns =
     [ seqs [Str ''adgm'', sp, opt_last ''courts''],
       seqs [Str ''abu'', sp, Str ''dhabi'', sp, Str ''global'', sp, Str ''market'', sp,
             opt_last ''courts''],
       seqs [opt_last ''courts'', sp, Str ''of'', sp, Str ''adgm''] ]"

definition incorrect_jurisdiction_issue :: "DocumentType \<Rightarrow> string \<Rightarrow> DocumentIssue" where
  "incorrect_jurisdiction_issue doc_type matched =
     \<lparr> i_document = doc_type_value doc_type,
       i_section = Some ''Jurisdiction Clause'',
       i_issue = ''Incorrect jurisdiction reference: '' @ [CHR 0x27] @ matched @ [CHR 0x27],
       i_severity = HIGH,
       i_suggestion = Some ''Update jurisdiction to reference ADGM Courts'',
       i_adgm_reference = Some ''ADGM Companies Regulations 2020, Article 6'',
       i_line_number = None \<rparr>"

definition missing_jurisdiction_issue :: "DocumentType \<Rightarrow> DocumentIssue" where
  "missing_jurisdiction_issue doc_type =
     \<lparr> i_document = doc_type_value doc_type,
       i_section = Some ''Jurisdiction Clause'',
       i_issue = ''Missing ADGM jurisdiction clause'',
       i_severity = HIGH,
       i_suggestion = Some ''Add clause specifying ADGM Courts jurisdiction'',
       i_adgm_reference = Some ''ADGM Companies Regulations 2020'',
       i_line_number = None \<rparr>"

definition has_adgm_jurisdiction :: "string \<Rightarrow> bool" where
  "has_adgm_jurisdiction text = list_ex (\<lambda>pattern. re_search pattern (lower text)) adgm_patterns"

definition jurisdiction_sensitive :: "DocumentType list" where
  "jurisdiction_sensitive =
     [ARTICLES_OF_ASSOCIATION, MEMORANDUM_OF_ASSOCIATION, COMMERCIAL_AGREEMENT]"

definition check_jurisdiction :: "string \<Rightarrow> DocumentType \<Rightarrow> DocumentIssue list" where
  "check_jurisdiction text doc_type =
     concat (map (\<lambda>pattern. map (incorrect_jurisdiction_issue doc_type)
                                (finditer pattern (lower text)))
               incorrect_jurisdictions)
     @ (if \<not> has_adgm_jurisdiction text \<and> doc_type \<in> set jurisdiction_sensitive
        then [missing_jurisdiction_issue doc_type] else [])"

subsection \<open>\_check\_required\_clauses\<close>

record clause_info =
  ci_name :: string
  ci_patterns :: "regex list"
  ci_severity :: "SeverityLevel option"
  ci_suggestion :: "string option"
  ci_reference :: "string option"

fun required_clauses :: "DocumentType \<Rightarrow> clause_info list" where
  "required_clauses ARTICLES_OF_ASSOCIATION =
     [ \<lparr> ci_name = ''Company Name'',
         ci_patterns = [spaced [''company'', ''name''], spaced [''name'', ''of'', ''the'', ''company'']],
         ci_severity = Some HIGH, ci_suggestion = None,
         ci_reference = Some ''ADGM Companies Regulations 2020, Art. 15'' \<rparr>,
       \<lparr> ci_name = ''Share Capital'',
         ci_patterns = [spaced [''share'', ''capital''], spaced [''authorized'', ''capital'']],
         ci_severity = Some HIGH, ci_suggestion = None,
         ci_reference = Some ''ADGM Companies Regulations 2020, Art. 25'' \<rparr>,
       \<lparr> ci_name = ''Directors Powers'',
         ci_patterns = [seqs [opt_last ''directors'', sp, opt_last ''powers''],
                        seqs [Str ''board'', sp, opt_last ''powers'']],
         ci_severity = Some MEDIUM, ci_suggestion = None,
         ci_reference = Some ''ADGM Companies Regulations 2020, Art. 45'' \<rparr> ]"
| "required_clauses MEMORANDUM_OF_ASSOCIATION =
     [ \<lparr> ci_name = ''Company Objects'',
         ci_patterns = [seqs [opt_last ''objects'', sp, Str ''of'', sp, Str ''the'', sp, Str ''company''],
                        seqs [Str ''business'', sp, opt_last ''objects'']],
         ci_severity = Some HIGH, ci_suggestion = None,
         ci_reference = Some ''ADGM Companies Regulations 2020, Art. 12'' \<rparr>,
       \<lparr> ci_name = ''Liability Clause'',
         ci_patterns = [spaced [''liability'', ''of'', ''members''], spaced [''limited'', ''liability'']],
         ci_severity = Some HIGH, ci_suggestion = None,
         ci_reference = Some ''ADGM Companies Regulations 2020, Art. 18'' \<rparr> ]"
| "required_clauses _ = []"

definition missing_clause_issue :: "DocumentType \<Rightarrow> clause_info \<Rightarrow> DocumentIssue" where
  "missing_clause_issue doc_type ci =
     \<lparr> i_document = doc_type_value doc_type,
       i_section = Some (ci_name ci),
       i_issue = ''Missing required clause: '' @ ci_name ci,
       i_severity = (case ci_severity ci of None \<Rightarrow> MEDIUM | Some s \<Rightarrow> s),
       i_suggestion = Some (case ci_suggestion ci of
                              None \<Rightarrow> ''Add '' @ ci_name ci @ '' clause'' | Some s \<Rightarrow> s),
       i_adgm_reference = Some (case ci_reference ci of None \<Rightarrow> ''ADGM Regulations'' | Some s \<Rightarrow> s),
       i_line_number = None \<rparr>"

definition check_required_clauses :: "string \<Rightarrow> DocumentType \<Rightarrow> DocumentIssue list" where
  "check_required_clauses text doc_type =
     map (missing_clause_issue doc_type)
       (filter (\<lambda>ci. \<not> list_ex (\<lambda>pattern. re_search pattern (lower text)) (ci_patterns ci))
          (required_clauses doc_type))"

subsection \<open>\_check\_formatting\<close>

text \<open>
  The structured content is a dictionary from the keys \<open>sections\<close>, \<open>clauses\<close>, \<open>tables\<close>
  and \<open>signatures\<close> to lists of dictionaries; an entry of such a dictionary is a text, an
  integer or the rows of a table.
\<close>

datatype pyval = PStr string | PInt int | PRows "string list list"

type_synonym pydict = "(string \<times> pyval) list"

type_synonym structured_content = "(string \<times> pydict list) list"

text \<open>\<open>d.get(key)\<close> tested for truth: the key is present with a non-empty list.\<close>

definition get_truthy :: "structured_content \<Rightarrow> string \<Rightarrow> bool" where
  "get_truthy sc key = (case map_of sc key of None \<Rightarrow> False | Some l \<Rightarrow> l \<noteq> [])"

definition get_list :: "structured_content \<Rightarrow> string \<Rightarrow> pydict list" where
  "get_list sc key = (case map_of sc key of None \<Rightarrow> [] | Some l \<Rightarrow> l)"

definition numbered_pattern :: regex where
  "numbered_pattern = seqs [Bol, Rep CDigit 1 None, Str ''.'']"

text \<open>
  The list comprehension \<open>[s for s in sections if re.match(r'^\d+\.', s['text'])]\<close>:
  \<open>s['text']\<close> raises \<open>KeyError\<close> when the key is absent, and \<open>re.match\<close> raises
  \<open>TypeError\<close> when the entry is not a text.
\<close>

fun numbered_sections :: "pydict list \<Rightarrow> py_error + pydict list" where
  "numbered_sections [] = Inr []"
| "numbered_sections (s # rest) =
     (case map_of s ''text'' of
        None \<Rightarrow> Inl (KeyError ''text'')
      | Some (PStr t) \<Rightarrow>
          (case numbered_sections rest of
             Inl e \<Rightarrow> Inl e
           | Inr ns \<Rightarrow> Inr (if re_match numbered_pattern t then s # ns else ns))
      | Some _ \<Rightarrow> Inl TypeError)"

definition signature_issue :: "DocumentType \<Rightarrow> DocumentIssue" where
  "signature_issue doc_type =
     \<lparr> i_document = doc_type_value doc_type,
       i_section = Some ''Signature Section'',
       i_issue = ''Missing signature section'',
       i_severity = MEDIUM,
       i_suggestion = Some ''Add proper signature section with date and witness fields'',
       i_adgm_reference = Some ''ADGM Document Standards'',
       i_line_number = None \<rparr>"

definition numbering_issue :: "DocumentType \<Rightarrow> DocumentIssue" where
  "numbering_issue doc_type =
     \<lparr> i_document = doc_type_value doc_type,
       i_section = Some ''Document Structure'',
       i_issue = ''Inconsistent section numbering'',
       i_severity = LOW,
       i_suggestion = Some ''Use consistent numbering for all sections'',
       i_adgm_reference = Some ''ADGM Document Formatting Guidelines'',
       i_line_number = None \<rparr>"

definition table_issue :: "DocumentType \<Rightarrow> DocumentIssue" where
  "table_issue doc_type =
     \<lparr> i_document = doc_type_value doc_type,
       i_section = Some ''Data Structure'',
       i_issue = ''Missing tabular format for member/director information'',
       i_severity = MEDIUM,
       i_suggestion = Some ''Use table format for member and director details'',
       i_adgm_reference = Some ''ADGM Register Requirements'',
       i_line_number = None \<rparr>"

text \<open>
  \<open>len(numbered_sections) < len(sections) * 0.5\<close> is the comparison
  \<open>2 * len(numbered_sections) < len(sections)\<close>.
\<close>

definition check_formatting ::
  "string \<Rightarrow> structured_content \<Rightarrow> DocumentType \<Rightarrow> py_error + DocumentIssue list" where
  "check_formatting text sc doc_type =
     (let issues1 =
            (if doc_type \<in> {ARTICLES_OF_ASSOCIATION, BOARD_RESOLUTION} \<and> \<not> get_truthy sc ''signatures''
             then [signature_issue doc_type] else []);
          sections = get_list sc ''sections''
      in case (if 0 < length sections
               then (case numbered_sections sections of
                       Inl e \<Rightarrow> Inl e
                     | Inr ns \<Rightarrow> Inr (if 2 * length ns < length sections
                                       then [numbering_issue doc_type] else []))
               else Inr []) of
           Inl e \<Rightarrow> Inl e
         | Inr issues2 \<Rightarrow>
             Inr (issues1 @ issues2
                  @ (if doc_type = REGISTER_MEMBERS_DIRECTORS \<and> \<not> get_truthy sc ''tables''
                     then [table_issue doc_type] else [])))"

subsection \<open>\_detect\_red\_flags\<close>

definition be_have_do :: regex where
  "be_have_do = Alt (Str ''be'') (Alt (Str ''have'') (Str ''do''))"

definition ambiguous_patterns :: "regex list" where
  "ambiguous_patterns =
     [ seqs [WordB, Str ''may'', sp, be_have_do],
       seqs [WordB, Str ''should'', sp, be_have_do],
       seqs [WordB, Str ''might'', sp, be_have_do],
       seqs [WordB, Str ''possibly''],
       seqs [WordB, Str ''perhaps''],
       seqs [WordB, Str ''if'', sp, Str ''possible''] ]"

definition ambiguous_issue :: "DocumentType \<Rightarrow> DocumentIssue" where
  "ambiguous_issue doc_type =
     \<lparr> i_document = doc_type_value doc_type,
       i_section = Some ''Language Clarity'',
       i_issue = ''Excessive use of ambiguous language'',
       i_severity = MEDIUM,
       i_suggestion = Some ''Use definitive language (shall, will, must) instead of ambiguous terms'',
       i_adgm_reference = Some ''ADGM Drafting Standards'',
       i_line_number = None \<rparr>"

text \<open>The loop over the ambiguous patterns, left by \<open>break\<close> after the first issue.\<close>

fun ambiguous_loop :: "regex list \<Rightarrow> string \<Rightarrow> DocumentType \<Rightarrow> DocumentIssue list" where
  "ambiguous_loop [] text_lower doc_type = []"
| "ambiguous_loop (pattern # rest) text_lower doc_type =
     (if 3 < length (finditer pattern text_lower)
      then [ambiguous_issue doc_type]
      else ambiguous_loop rest text_lower doc_type)"

definition essential_info :: "(regex \<times> string) list" where
  "essential_info =
     [ (spaced [''share'', ''capital''], ''Share capital information''),
       (spaced [''registered'', ''office''], ''Registered office address''),
       (seqs [opt_last ''objects'', sp, Str ''of'', sp, Str ''the'', sp, Str ''company''],
        ''Company objects'') ]"

definition essential_issue :: "DocumentType \<Rightarrow> string \<Rightarrow> DocumentIssue" where
  "essential_issue doc_type info_name =
     \<lparr> i_document = doc_type_value doc_type,
       i_section = Some info_name,
       i_issue = ''Missing '' @ lower info_name,
       i_severity = HIGH,
       i_suggestion = Some (''Include '' @ lower info_name @ '' in the document''),
       i_adgm_reference = Some ''ADGM Companies Regulations'',
       i_line_number = None \<rparr>"

definition date_patterns :: "regex list" where
  "date_patterns =
     [ seqs [Rep CDigit 1 (Some 2), Str ''/'', Rep CDigit 1 (Some 2), Str ''/'', Rep CDigit 2 (Some 4)],
       seqs [Rep CDigit 1 (Some 2), Str ''-'', Rep CDigit 1 (Some 2), Str ''-'', Rep CDigit 2 (Some 4)] ]"

definition date_issue :: "DocumentType \<Rightarrow> DocumentIssue" where
  "date_issue doc_type =
     \<lparr> i_document = doc_type_value doc_type,
       i_section = Some ''Date Format'',
       i_issue = ''Inconsistent date format detected'',
       i_severity = LOW,
       i_suggestion = Some ''Use consistent date format (DD Month YYYY)'',
       i_adgm_reference = Some ''ADGM Document Standards'',
       i_line_number = None \<rparr>"

text \<open>The loop over the date patterns, searched in the text as given, left by \<open>break\<close>.\<close>

fun date_loop :: "regex list \<Rightarrow> string \<Rightarrow> DocumentType \<Rightarrow> DocumentIssue list" where
  "date_loop [] text doc_type = []"
| "date_loop (pattern # rest) text doc_type =
     (if re_search pattern text then [date_issue doc_type] else date_loop rest text doc_type)"

definition detect_red_flags :: "string \<Rightarrow> DocumentType \<Rightarrow> DocumentIssue list" where
  "detect_red_flags text doc_type =
     ambiguous_loop ambiguous_patterns (lower text) doc_type
     @ (if doc_type = ARTICLES_OF_ASSOCIATION
        then map (\<lambda>(pattern, info_name). essential_issue doc_type info_name)
               (filter (\<lambda>(pattern, info_name). \<not> re_search pattern (lower text)) essential_info)
        else [])
     @ date_loop date_patterns text doc_type"

subsection \<open>\_check\_adgm\_specific\_requirements\<close>

definition adgm_reg_pattern :: regex where
  "adgm_reg_pattern = seqs [Str ''adgm'', sp0, Opt (Str ''-''), sp0, Rep CDigit 1 None]"

definition registration_issue :: "DocumentType \<Rightarrow> DocumentIssue" where
  "registration_issue doc_type =
     \<lparr> i_document = doc_type_value doc_type,
       i_section = Some ''Registration Details'',
       i_issue = ''Missing or incorrect ADGM registration number format'',
       i_severity = MEDIUM,
       i_suggestion = Some ''Include proper ADGM registration number (ADGM-XXXXXX)'',
       i_adgm_reference = Some ''ADGM Registration Requirements'',
       i_line_number = None \<rparr>"

definition abbreviation_issue :: "DocumentType \<Rightarrow> DocumentIssue" where
  "abbreviation_issue doc_type =
     \<lparr> i_document = doc_type_value doc_type,
       i_section = Some ''ADGM Reference'',
       i_issue = ''ADGM abbreviation used without full name'',
       i_severity = LOW,
       i_suggestion = Some (''Use full name '' @ [CHR 0x27] @ ''Abu Dhabi Global Market (ADGM)''
                            @ [CHR 0x27] @ '' on first reference''),
       i_adgm_reference = Some ''ADGM Style Guide'',
       i_line_number = None \<rparr>"

definition check_adgm_specific_requirements :: "string \<Rightarrow> DocumentType \<Rightarrow> DocumentIssue list" where
  "check_adgm_specific_requirements text doc_type =
     (if doc_type \<in> {ARTICLES_OF_ASSOCIATION, MEMORANDUM_OF_ASSOCIATION}
         \<and> \<not> re_search adgm_reg_pattern (lower text)
      then [registration_issue doc_type] else [])
     @ (if \<not> py_in ''abu dhabi global market'' (lower text) \<and> py_in ''adgm'' (lower text)
        then [abbreviation_issue doc_type] else [])"

subsection \<open>check\_compliance\<close>

text \<open>
  The five checks run one after the other and extend one list. The method has no handler:
  an exception of a check leaves it at once, and the issues collected so far are lost with
  the local list.
\<close>

definition check_compliance ::
  "string \<Rightarrow> DocumentType \<Rightarrow> structured_content \<Rightarrow> py_error + DocumentIssue list" where
  "check_compliance document_text document_type sc =
     (let issues1 = check_jurisdiction document_text document_type;
          issues2 = issues1 @ check_required_clauses document_text document_type
      in case check_formatting document_text sc document_type of
           Inl e \<Rightarrow> Inl e
         | Inr formatting \<Rightarrow>
             Inr (issues2 @ formatting
                  @ detect_red_flags document_text document_type
                  @ check_adgm_specific_requirements document_text document_type))"

section \<open>Type classifier (src/core/document\_parser.py)\<close>

text \<open>
  \<open>_create_type_patterns\<close>: the dictionary of patterns, as the list of its items in
  insertion order, which is the order a Python dictionary is iterated in.
\<close>

definition document_type_patterns :: "(DocumentType \<times> regex list) list" where
  "document_type_patterns =
     [ (ARTICLES_OF_ASSOCIATION,
          [ seqs [opt_last ''articles'', sp, Str ''of'', sp, Str ''association''],
            spaced [''company'', ''constitution''],
            spaced [''share'', ''capital''],
            seqs [opt_last ''directors'', sp, Str ''powers''],
            seqs [Str ''general'', sp, opt_last ''meetings''],
            Str ''dividend'',
            spaced [''winding'', ''up''] ]),
       (MEMORANDUM_OF_ASSOCIATION,
          [ spaced [''memorandum'', ''of'', ''association''],
            seqs [opt_last ''objects'', sp, Str ''of'', sp, Str ''the'', sp, Str ''company''],
            spaced [''liability'', ''of'', ''members''],
            spaced [''authorized'', ''share'', ''capital''],
            spaced [''company'', ''name''],
            spaced [''registered'', ''office''] ]),
       (INCORPORATION_APPLICATION,
          [ spaced [''incorporation'', ''application''],
            spaced [''application'', ''for'', ''registration''],
            spaced [''company'', ''registration''],
            spaced [''proposed'', ''company'', ''name''],
            spaced [''nature'', ''of'', ''business''],
            spaced [''registered'', ''address''] ]),
       (UBO_DECLARATION,
          [ spaced [''ultimate'', ''beneficial'', ''owner''],
            spaced [''ubo'', ''declaration''],
            spaced [''beneficial'', ''ownership''],
            spaced [''controlling'', ''interest''],
            spaced [''ownership'', ''structure''],
            spaced [''25%'', ''or'', ''more''] ]),
       (BOARD_RESOLUTION,
          [ spaced [''board'', ''resolution''],
            seqs [opt_last ''directors'', sp, Str ''resolution''],
            spaced [''resolved'', ''that''],
            spaced [''board'', ''of'', ''directors''],
            spaced [''meeting'', ''of'', ''directors''],
            spaced [''quorum'', ''present''] ]),
       (REGISTER_MEMBERS_DIRECTORS,
          [ spaced [''register'', ''of'', ''members''],
            spaced [''register'', ''of'', ''directors''],
            seqs [opt_last ''shareholders'', sp, Str ''register''],
            seqs [opt_last ''directors'', sp, Str ''register''],
            spaced [''member'', ''details''],
            spaced [''director'', ''details''] ]),
       (SHAREHOLDER_RESOLUTION,
          [ seqs [opt_last ''shareholders'', sp, Str ''resolution''],
            spaced [''general'', ''meeting''],
            spaced [''extraordinary'', ''general'', ''meeting''],
            spaced [''annual'', ''general'', ''meeting''],
            spaced [''special'', ''resolution''],
            spaced [''ordinary'', ''resolution''] ]),
       (CHANGE_ADDRESS_NOTICE,
          [ spaced [''change'', ''of'', ''address''],
            spaced [''registered'', ''office'', ''address''],
            spaced [''new'', ''address''],
            spaced [''address'', ''change''],
            spaced [''relocation'', ''notice''],
            spaced [''office'', ''relocation''] ]),
       (EMPLOYMENT_CONTRACT,
          [ spaced [''employment'', ''contract''],
            spaced [''employment'', ''agreement''],
            spaced [''terms'', ''of'', ''employment''],
            spaced [''job'', ''description''],
            Str ''salary'',
            spaced [''working'', ''hours''],
            spaced [''notice'', ''period''] ]),
       (COMMERCIAL_AGREEMENT,
          [ spaced [''commercial'', ''agreement''],
            spaced [''service'', ''agreement''],
            spaced [''supply'', ''agreement''],
            spaced [''partnership'', ''agreement''],
            spaced [''terms'', ''and'', ''conditions''],
            spaced [''payment'', ''terms''] ]),
       (COMPLIANCE_POLICY,
          [ spaced [''compliance'', ''policy''],
            spaced [''risk'', ''management''],
            spaced [''data'', ''protection''],
            seqs [Str ''anti'', Cls CAny, Str ''money'', sp, Str ''laundering''],
            spaced [''know'', ''your'', ''customer''],
            spaced [''regulatory'', ''compliance''] ]) ]"

text \<open>
  The confidence of one type: the patterns found, each searched on its own, over the
  number of patterns. The quotient is exact here; the source computes it in floating point.
\<close>

definition pattern_score :: "string \<Rightarrow> regex list \<Rightarrow> rat" where
  "pattern_score text_lower patterns =
     (if 0 < length patterns
      then of_nat (length (filter (\<lambda>pattern. re_search pattern text_lower) patterns))
             / of_nat (length patterns)
      else 0)"

definition type_scores :: "string \<Rightarrow> (DocumentType \<times> rat) list" where
  "type_scores text_lower =
     map (\<lambda>(doc_type, patterns). (doc_type, pattern_score text_lower patterns))
       document_type_patterns"

text \<open>
  \<open>max(type_scores, key=type_scores.get)\<close>: the items are visited in order and the
  candidate is replaced only by an item with a strictly greater score.
\<close>

fun max_by_score :: "('a \<times> rat) \<Rightarrow> ('a \<times> rat) list \<Rightarrow> ('a \<times> rat)" where
  "max_by_score best [] = best"
| "max_by_score best (x # xs) =
     (if snd best < snd x then max_by_score x xs else max_by_score best xs)"

definition identify_document_type :: "string \<Rightarrow> DocumentType \<times> rat" where
  "identify_document_type text_content =
     (case type_scores (lower text_content) of
        [] \<Rightarrow> (OTHER, 0)
      | x # xs \<Rightarrow>
          (let best = max_by_score x xs
           in if 3 / 10 \<le> snd best then best else (OTHER, 0)))"

section \<open>Checklist verifier (src/core/checklist\_verifier.py, src/config.py)\<close>

datatype ProcessType =
    COMPANY_INCORPORATION
  | LICENSE_APPLICATION
  | EMPLOYMENT_SETUP
  | COMMERCIAL_AGREEMENT_PROCESS
  | COMPLIANCE_FILING
  | OTHER_PROCESS

text \<open>
  The members \<open>COMMERCIAL_AGREEMENT\<close> and \<open>OTHER\<close> of \<open>ProcessType\<close> share their names with
  members of \<open>DocumentType\<close>; they carry the suffix \<open>_PROCESS\<close> here.
\<close>

fun process_type_value :: "ProcessType \<Rightarrow> string" where
  "process_type_value COMPANY_INCORPORATION = ''Company Incorporation''"
| "process_type_value LICENSE_APPLICATION = ''License Application''"
| "process_type_value EMPLOYMENT_SETUP = ''Employment Setup''"
| "process_type_value COMMERCIAL_AGREEMENT_PROCESS = ''Commercial Agreement''"
| "process_type_value COMPLIANCE_FILING = ''Compliance Filing''"
| "process_type_value OTHER_PROCESS = ''Other''"

text \<open>\<open>ADGM_PROCESS_REQUIREMENTS\<close>, the dictionary as the list of its items.\<close>

definition ADGM_PROCESS_REQUIREMENTS :: "(string \<times> string list) list" where
  "ADGM_PROCESS_REQUIREMENTS =
     [ (''Company Incorporation'',
          [ ''Articles of Association'',
            ''Memorandum of Association'',
            ''UBO Declaration Form'',
            ''Register of Members and Directors'',
            ''Board Resolution Templates'' ]),
       (''License Application'',
          [ ''License Application Form'',
            ''Business Plan'',
            ''Financial Projections'',
            ''Compliance Manual'' ]) ]"

text \<open>The dictionary a parsed document is, with the entries the core reads.\<close>

record parsed_doc =
  pd_filename :: string
  pd_text_content :: string
  pd_word_count :: int
  pd_document_type :: "DocumentType option"
  pd_type_confidence :: rat
  pd_structured_content :: structured_content

text \<open>\<open>doc.get('document_type', DocumentType.OTHER)\<close>, then its \<open>.value\<close>.\<close>

definition uploaded_doc_name :: "parsed_doc \<Rightarrow> string" where
  "uploaded_doc_name doc =
     doc_type_value (case pd_document_type doc of None \<Rightarrow> OTHER | Some t \<Rightarrow> t)"

definition match_patterns :: "(string \<times> string list) list" where
  "match_patterns =
     [ (''articles of association'', [''articles'', ''aoa'', ''articles of association'']),
       (''memorandum of association'', [''memorandum'', ''moa'', ''memorandum of association'']),
       (''ubo declaration'', [''ubo'', ''beneficial owner'', ''ultimate beneficial owner'']),
       (''board resolution'', [''board resolution'', ''directors resolution'', ''resolution'']),
       (''register of members and directors'',
          [''register'', ''members register'', ''directors register'']),
       (''shareholder resolution'', [''shareholder resolution'', ''shareholders resolution'']),
       (''employment contract'', [''employment'', ''contract'', ''employment agreement'']),
       (''incorporation application'',
          [''incorporation'', ''application'', ''registration application'']) ]"

text \<open>
  The first loop of \<open>_documents_match\<close>: it returns at the first key that occurs in the
  required name; \<open>None\<close> when the loop ends without returning.
\<close>

fun match_loop :: "(string \<times> string list) list \<Rightarrow> string \<Rightarrow> string \<Rightarrow> bool option" where
  "match_loop [] required_lower uploaded_lower = None"
| "match_loop ((pattern_key, patterns) # rest) required_lower uploaded_lower =
     (if py_in pattern_key required_lower
      then Some (list_ex (\<lambda>pattern. py_in pattern uploaded_lower) patterns)
      else match_loop rest required_lower uploaded_lower)"

definition documents_match :: "string \<Rightarrow> string \<Rightarrow> bool" where
  "documents_match required_doc uploaded_doc =
     (let required_lower = strip (lower required_doc);
          uploaded_lower = strip (lower uploaded_doc)
      in if required_lower = uploaded_lower then True
         else case match_loop match_patterns required_lower uploaded_lower of
                Some b \<Rightarrow> b
              | None \<Rightarrow>
                  list_ex (\<lambda>pattern. py_in pattern uploaded_lower)
                    (case map_of match_patterns required_lower of None \<Rightarrow> [] | Some ps \<Rightarrow> ps))"

record completeness =
  c_process_type :: string
  c_total_required :: nat
  c_total_uploaded :: nat
  c_total_present :: nat
  c_completeness_percentage :: rat
  c_missing_documents :: "string list"
  c_present_documents :: "string list"
  c_is_complete :: bool

text \<open>
  The loop over the required documents, with its two lists \<open>missing_documents\<close> and
  \<open>present_documents\<close>, each extended at its end.
\<close>

fun completeness_loop ::
  "string list \<Rightarrow> string list \<Rightarrow> string list \<Rightarrow> string list \<Rightarrow> string list \<times> string list" where
  "completeness_loop [] uploaded_doc_names missing present = (missing, present)"
| "completeness_loop (required_doc # rest) uploaded_doc_names missing present =
     (if list_ex (\<lambda>doc_name. documents_match required_doc doc_name) uploaded_doc_names
      then completeness_loop rest uploaded_doc_names missing (present @ [required_doc])
      else completeness_loop rest uploaded_doc_names (missing @ [required_doc]) present)"

definition required_documents :: "ProcessType \<Rightarrow> string list" where
  "required_documents process_type =
     (case map_of ADGM_PROCESS_REQUIREMENTS (process_type_value process_type) of
        None \<Rightarrow> [] | Some docs \<Rightarrow> docs)"

text \<open>The percentage is an exact quotient here; the source computes it in floating point.\<close>

definition verify_document_completeness :: "parsed_doc list \<Rightarrow> ProcessType \<Rightarrow> completeness" where
  "verify_document_completeness uploaded_documents process_type =
     (let required_docs = required_documents process_type;
          uploaded_doc_names = map uploaded_doc_name uploaded_documents;
          (missing_documents, present_documents) =
             completeness_loop required_docs uploaded_doc_names [] [];
          total_required = length required_docs;
          total_present = length present_documents
      in \<lparr> c_process_type = process_type_value process_type,
           c_total_required = total_required,
           c_total_uploaded = length uploaded_documents,
           c_total_present = total_present,
           c_completeness_percentage =
             (if 0 < total_required
              then of_nat total_present / of_nat total_required * 100 else 100),
           c_missing_documents = missing_documents,
           c_present_documents = present_documents,
           c_is_complete = (length missing_documents = 0) \<rparr>)"

section \<open>Per-document analysis (src/core/processing\_engine.py, \_analyze\_single\_document)\<close>

text \<open>\<open>DocumentAnalysis\<close>, without the time stamp \<open>processed_at\<close>.\<close>

record DocumentAnalysis =
  da_filename :: string
  da_document_type :: DocumentType
  da_confidence :: rat
  da_issues :: "DocumentIssue list"
  da_compliance_score :: rat
  da_word_count :: int

text \<open>The analysis returned by the handler of \<open>_analyze_single_document\<close>.\<close>

definition basic_analysis :: "parsed_doc \<Rightarrow> DocumentAnalysis" where
  "basic_analysis doc =
     \<lparr> da_filename = pd_filename doc,
       da_document_type = (case pd_document_type doc of None \<Rightarrow> OTHER | Some t \<Rightarrow> t),
       da_confidence = 0,
       da_issues = [],
       da_compliance_score = 0,
       da_word_count = pd_word_count doc \<rparr>"

text \<open>
  The body of \<open>_analyze_single_document\<close> runs inside \<open>try\<close>; any exception, the
  \<open>KeyError\<close> of \<open>parsed_doc['document_type']\<close> and whatever \<open>check_compliance\<close> raises
  included, is logged and answered with the basic analysis. The two lists of the advisory
  analyzer, which catches its own failures and returns a list, are parameters.
\<close>

definition analyze_single_document ::
  "parsed_doc \<Rightarrow> DocumentIssue list \<Rightarrow> DocumentIssue list \<Rightarrow> DocumentAnalysis" where
  "analyze_single_document doc rag_issues red_flags =
     (case pd_document_type doc of
        None \<Rightarrow> basic_analysis doc
      | Some document_type \<Rightarrow>
          (case check_compliance (pd_text_content doc) document_type (pd_structured_content doc) of
             Inl e \<Rightarrow> basic_analysis doc
           | Inr compliance_issues \<Rightarrow>
               (let all_issues = compliance_issues @ rag_issues @ red_flags;
                    unique_issues = deduplicate_issues all_issues;
                    compliance_score =
                      calculate_compliance_score unique_issues
                        (int (length (split_ws (pd_text_content doc))))
                in \<lparr> da_filename = pd_filename doc,
                     da_document_type = document_type,
                     da_confidence = pd_type_confidence doc,
                     da_issues = unique_issues,
                     da_compliance_score = compliance_score,
                     da_word_count = pd_word_count doc \<rparr>)))"

section \<open>Annotator (src/core/document\_annotator.py)\<close>

text \<open>
  A document is the sequence of its body paragraphs, a paragraph the sequence of its runs,
  and \<open>paragraph.text\<close> (here \<open>para_text\<close>) the concatenation of the runs' texts. A run carries its text and the
  character formats the annotator sets: bold, italic, the yellow highlight and the colour.
  Font sizes and paragraph indents are not carried. Tables stand between paragraphs and are
  not touched by the annotator; they are left out.
\<close>

record run =
  r_text :: string
  r_bold :: bool
  r_italic :: bool
  r_highlight :: bool
  r_color :: "(nat \<times> nat \<times> nat) option"

type_synonym docx_paragraph = "run list"

type_synonym docx_document = "docx_paragraph list"

definition para_text :: "docx_paragraph \<Rightarrow> string" where
  "para_text p = concat (map r_text p)"

text \<open>\<open>paragraph.add_run(text)\<close>: a run without character formats.\<close>

definition plain_run :: "string \<Rightarrow> run" where
  "plain_run t = \<lparr> r_text = t, r_bold = False, r_italic = False, r_highlight = False, r_color = None \<rparr>"

record CommentInsertion =
  ins_paragraph_index :: nat
  ins_comment_text :: string
  ins_highlight_text :: "string option"
  ins_comment_type :: string

subsection \<open>\_extract\_keywords\_from\_issue\<close>

definition keyword_map :: "(string \<times> string list) list" where
  "keyword_map =
     [ (''jurisdiction'', [''jurisdiction'', ''court'', ''adgm'', ''dubai'', ''abu dhabi'']),
       (''signature'', [''signature'', ''signed'', ''signatory'', ''execution'']),
       (''date'', [''date'', ''dated'', ''day of'']),
       (''share capital'', [''share'', ''capital'', ''shares'', ''authorized'']),
       (''director'', [''director'', ''board'', ''directors'']),
       (''member'', [''member'', ''shareholder'', ''membership'']),
       (''company name'', [''company'', ''name'', ''corporation'']),
       (''registered office'', [''registered'', ''office'', ''address'']),
       (''objects'', [''objects'', ''purpose'', ''business'', ''activities'']) ]"

text \<open>\<open>if issue.section\<close>: the section is present and not the empty text.\<close>

definition section_words :: "DocumentIssue \<Rightarrow> string list" where
  "section_words issue =
     (case i_section issue of
        None \<Rightarrow> []
      | Some s \<Rightarrow> if s = [] then [] else split_ws (lower s))"

text \<open>
  The method ends with \<open>list(set(keywords))\<close>. The order in which a set of texts is
  iterated is not fixed by the language (it changes with the hash seed of the process), so
  the conversion is the parameter \<open>set_order\<close>: any function from the collected keywords to
  a list of them.
\<close>

definition extract_keywords_from_issue ::
  "(string list \<Rightarrow> string list) \<Rightarrow> DocumentIssue \<Rightarrow> string list" where
  "extract_keywords_from_issue set_order issue =
     set_order
       (concat (map (\<lambda>(category, terms).
                       if list_ex (\<lambda>term. py_in term (lower (i_issue issue))) terms
                       then terms else [])
                  keyword_map)
        @ section_words issue)"

subsection \<open>\_find\_best\_paragraph\<close>

text \<open>The first loop: the index of the first paragraph that contains a word of the section.\<close>

fun first_section_paragraph :: "string list \<Rightarrow> nat \<Rightarrow> string list \<Rightarrow> nat option" where
  "first_section_paragraph section_keywords i [] = None"
| "first_section_paragraph section_keywords i (paragraph # rest) =
     (if list_ex (\<lambda>keyword. py_in keyword (lower paragraph)) section_keywords
      then Some i
      else first_section_paragraph section_keywords (Suc i) rest)"

text \<open>
  The second loop, with its variables \<open>best_match_index\<close> and \<open>best_match_score\<close>: a later
  paragraph replaces the candidate only with a strictly greater score.
\<close>

fun best_match_loop ::
  "string list \<Rightarrow> nat \<Rightarrow> string list \<Rightarrow> nat option \<Rightarrow> nat \<Rightarrow> nat option \<times> nat" where
  "best_match_loop issue_keywords i [] best_match_index best_match_score =
     (best_match_index, best_match_score)"
| "best_match_loop issue_keywords i (paragraph # rest) best_match_index best_match_score =
     (let score = length (filter (\<lambda>keyword. py_in keyword (lower paragraph)) issue_keywords)
      in if best_match_score < score
         then best_match_loop issue_keywords (Suc i) rest (Some i) score
         else best_match_loop issue_keywords (Suc i) rest best_match_index best_match_score)"

definition find_best_paragraph ::
  "(string list \<Rightarrow> string list) \<Rightarrow> DocumentIssue \<Rightarrow> string list \<Rightarrow> nat option" where
  "find_best_paragraph set_order issue paragraphs =
     (case first_section_paragraph (section_words issue) 0 paragraphs of
        Some i \<Rightarrow> Some i
      | None \<Rightarrow>
          (let (best_match_index, best_match_score) =
                 best_match_loop (extract_keywords_from_issue set_order issue) 0 paragraphs None 0
           in if 0 < best_match_score then best_match_index else None))"

subsection \<open>\_extract\_highlight\_text\<close>

text \<open>
  The first keyword that occurs in the lowered paragraph decides; the pattern
  \<open>re.escape(keyword)\<close> with \<open>re.IGNORECASE\<close> then finds the leftmost place where the
  paragraph reads as the keyword when lowered, and the text of the paragraph there is
  returned.
\<close>

fun extract_highlight_loop :: "string list \<Rightarrow> string \<Rightarrow> string option" where
  "extract_highlight_loop [] paragraph_text = None"
| "extract_highlight_loop (keyword # rest) paragraph_text =
     (if py_in keyword (lower paragraph_text)
      then (case find_index_of keyword (lower paragraph_text) of
              Some start \<Rightarrow> Some (take (length keyword) (drop start paragraph_text))
            | None \<Rightarrow> extract_highlight_loop rest paragraph_text)
      else extract_highlight_loop rest paragraph_text)"

definition extract_highlight_text ::
  "(string list \<Rightarrow> string list) \<Rightarrow> DocumentIssue \<Rightarrow> string \<Rightarrow> string option" where
  "extract_highlight_text set_order issue paragraph_text =
     extract_highlight_loop (extract_keywords_from_issue set_order issue) paragraph_text"

subsection \<open>\_format\_comment and \_get\_comment\_type\<close>

text \<open>
  The icons of the source's literals contain code points above 255; they are written here
  as the bytes of the literal in the source file.
\<close>

fun severity_emoji :: "SeverityLevel \<Rightarrow> string" where
  "severity_emoji LOW = [CHR 0xC3, CHR 0xB0, CHR 0xC5, CHR 0xB8, CHR 0xC5, CHR 0xB8, CHR 0xC2, CHR 0xA1]"
| "severity_emoji MEDIUM = [CHR 0xC3, CHR 0xB0, CHR 0xC5, CHR 0xB8, CHR 0xC5, CHR 0xB8, CHR 0xC2, CHR 0xA0]"
| "severity_emoji HIGH = [CHR 0xC3, CHR 0xB0, CHR 0xC5, CHR 0xB8, CHR 0xE2, CHR 0x80, CHR 0x9D, CHR 0xC2, CHR 0xB4]"
| "severity_emoji CRITICAL = [CHR 0xC3, CHR 0xB0, CHR 0xC5, CHR 0xB8, CHR 0xC5, CHR 0xA1, CHR 0xC2, CHR 0xA8]"

text \<open>\<open>issue.severity.value.upper()\<close>.\<close>

fun severity_upper :: "SeverityLevel \<Rightarrow> string" where
  "severity_upper LOW = ''LOW''"
| "severity_upper MEDIUM = ''MEDIUM''"
| "severity_upper HIGH = ''HIGH''"
| "severity_upper CRITICAL = ''CRITICAL''"

text \<open>\<open>"\n".join(parts)\<close>.\<close>

fun join_lines :: "string list \<Rightarrow> string" where
  "join_lines [] = []"
| "join_lines [l] = l"
| "join_lines (l # ls) = l @ [CHR 0x0A] @ join_lines ls"

text \<open>\<open>if issue.suggestion\<close>: the optional text is present and not empty.\<close>

definition truthy :: "string option \<Rightarrow> bool" where
  "truthy s = (case s of None \<Rightarrow> False | Some t \<Rightarrow> t \<noteq> [])"

definition format_comment :: "DocumentIssue \<Rightarrow> string" where
  "format_comment issue =
     join_lines
       ([severity_emoji (i_severity issue) @ '' '' @ severity_upper (i_severity issue) @ '' ISSUE'',
         ''Issue: '' @ i_issue issue]
        @ (if truthy (i_suggestion issue) then [''Suggestion: '' @ the (i_suggestion issue)] else [])
        @ (if truthy (i_adgm_reference issue) then [''Reference: '' @ the (i_adgm_reference issue)] else []))"

definition get_comment_type :: "DocumentIssue \<Rightarrow> string" where
  "get_comment_type issue =
     (if i_severity issue \<in> {HIGH, CRITICAL} then ''critical''
      else if i_severity issue = MEDIUM then ''warning''
      else ''info'')"

subsection \<open>\_create\_comment\_insertions\<close>

text \<open>
  \<open>paragraphs[paragraph_index]\<close> is read at an index that \<open>_find_best_paragraph\<close> found
  while walking over \<open>paragraphs\<close>, so it is in range; the model reads \<open>None\<close> elsewhere.
\<close>

fun comment_insertions_loop ::
  "(string list \<Rightarrow> string list) \<Rightarrow> DocumentIssue list \<Rightarrow> string list \<Rightarrow> CommentInsertion list" where
  "comment_insertions_loop set_order [] paragraphs = []"
| "comment_insertions_loop set_order (issue # rest) paragraphs =
     (case find_best_paragraph set_order issue paragraphs of
        None \<Rightarrow> comment_insertions_loop set_order rest paragraphs
      | Some paragraph_index \<Rightarrow>
          \<lparr> ins_paragraph_index = paragraph_index,
            ins_comment_text = format_comment issue,
            ins_highlight_text =
              (if paragraph_index < length paragraphs
               then extract_highlight_text set_order issue (paragraphs ! paragraph_index)
               else None),
            ins_comment_type = get_comment_type issue \<rparr>
          # comment_insertions_loop set_order rest paragraphs)"

definition create_comment_insertions ::
  "(string list \<Rightarrow> string list) \<Rightarrow> DocumentIssue list \<Rightarrow> docx_document \<Rightarrow> CommentInsertion list" where
  "create_comment_insertions set_order issues doc =
     comment_insertions_loop set_order issues (map para_text doc)"

subsection \<open>\_highlight\_text\_in\_paragraph\<close>

definition highlighted_run :: "string \<Rightarrow> run" where
  "highlighted_run t = (plain_run t) \<lparr> r_highlight := True \<rparr>"

text \<open>
  The paragraph is cleared and rebuilt from three slices of its text: what stands before
  the match, the match, and what stands after it; an empty first or last slice adds no run.
\<close>

definition highlight_text_in_paragraph :: "docx_paragraph \<Rightarrow> string \<Rightarrow> docx_paragraph" where
  "highlight_text_in_paragraph p highlight_text =
     (let original_text = para_text p
      in if py_in (lower highlight_text) (lower original_text)
         then (case find_index_of (lower highlight_text) (lower original_text) of
                 None \<Rightarrow> p
               | Some start_index \<Rightarrow>
                   (if 0 < start_index then [plain_run (take start_index original_text)] else [])
                   @ [highlighted_run
                        (take (length highlight_text) (drop start_index original_text))]
                   @ (if start_index + length highlight_text < length original_text
                      then [plain_run (drop (start_index + length highlight_text) original_text)]
                      else []))
         else p)"

subsection \<open>\_insert\_comment\<close>

definition comment_run :: "CommentInsertion \<Rightarrow> run" where
  "comment_run insertion =
     (let t = ''[ADGM REVIEW] '' @ ins_comment_text insertion
      in if ins_comment_type insertion = ''critical''
         then \<lparr> r_text = t, r_bold = True, r_italic = True, r_highlight = False,
                r_color = Some (204, 0, 0) \<rparr>
         else if ins_comment_type insertion = ''warning''
         then \<lparr> r_text = t, r_bold = True, r_italic = True, r_highlight = False,
                r_color = Some (255, 102, 0) \<rparr>
         else \<lparr> r_text = t, r_bold = False, r_italic = True, r_highlight = False,
                r_color = Some (0, 102, 204) \<rparr>)"

text \<open>
  The target paragraph is highlighted when a highlight text is given, and the comment
  paragraph is placed right after it. An index beyond the document changes nothing.
\<close>

definition insert_comment :: "docx_document \<Rightarrow> CommentInsertion \<Rightarrow> docx_document" where
  "insert_comment doc insertion =
     (let i = ins_paragraph_index insertion
      in if i < length doc
         then take i doc
              @ [ if truthy (ins_highlight_text insertion)
                  then highlight_text_in_paragraph (doc ! i) (the (ins_highlight_text insertion))
                  else doc ! i,
                  [comment_run insertion] ]
              @ drop (Suc i) doc
         else doc)"

subsection \<open>\_create\_summary\_content\<close>

definition count_severity :: "SeverityLevel \<Rightarrow> DocumentIssue list \<Rightarrow> nat" where
  "count_severity s issues = length (filter (\<lambda>issue. i_severity issue = s) issues)"

definition severity_line :: "SeverityLevel \<Rightarrow> DocumentIssue list \<Rightarrow> string list" where
  "severity_line s issues =
     (if 0 < count_severity s issues
      then [severity_emoji s @ '' '' @ severity_value s @ '': ''
              @ digits_of (count_severity s issues) @ '' issue(s)'']
      else [])"

text \<open>\<open>enumerate(issues[:5])\<close>, each item numbered from one.\<close>

fun top_issue_lines :: "nat \<Rightarrow> DocumentIssue list \<Rightarrow> string list" where
  "top_issue_lines i [] = []"
| "top_issue_lines i (issue # rest) =
     (digits_of (i + 1) @ ''. '' @ i_issue issue) # top_issue_lines (Suc i) rest"

definition icon_total :: string where
  "icon_total = [CHR 0xC3, CHR 0xB0, CHR 0xC5, CHR 0xB8, CHR 0xE2, CHR 0x80, CHR 0x9C, CHR 0xC5, CHR 0xA0]"

definition icon_ok :: string where
  "icon_ok = [CHR 0xC3, CHR 0xA2, CHR 0xC5, CHR 0x93, CHR 0xE2, CHR 0x80, CHR 0xA6]"

definition icon_key :: string where
  "icon_key = [CHR 0xC3, CHR 0xB0, CHR 0xC5, CHR 0xB8, CHR 0xE2, CHR 0x80, CHR 0x9C]"

definition icon_review :: string where
  "icon_review = [CHR 0xC3, CHR 0xB0, CHR 0xC5, CHR 0xB8, CHR 0xE2, CHR 0x80, CHR 0x99, CHR 0xC2, CHR 0xA1]"

definition create_summary_content :: "DocumentIssue list \<Rightarrow> string list" where
  "create_summary_content issues =
     (if issues = []
      then [icon_ok @ '' No compliance issues found. Document appears to be compliant with ADGM requirements.'']
      else
        [icon_total @ '' Total Issues Found: '' @ digits_of (length issues), '''']
        @ severity_line CRITICAL issues @ severity_line HIGH issues
        @ severity_line MEDIUM issues @ severity_line LOW issues
        @ ['''', icon_key @ '' Key Issues:'']
        @ top_issue_lines 0 (take 5 issues)
        @ (if 5 < length issues
           then [''... and '' @ digits_of (length issues - 5) @ '' more issue(s)''] else [])
        @ ['''',
           icon_review @ '' Please review the detailed comments throughout the document for specific guidance.'',
           ''''])"

subsection \<open>\_add\_summary\_section\<close>

definition title_run :: run where
  "title_run = \<lparr> r_text = ''ADGM COMPLIANCE REVIEW SUMMARY'', r_bold = True, r_italic = False,
                  r_highlight = False, r_color = Some (0, 51, 102) \<rparr>"

definition separator_run :: run where
  "separator_run = \<lparr> r_text = replicate 80 (CHR ''=''), r_bold = False, r_italic = False,
                      r_highlight = False, r_color = Some (128, 128, 128) \<rparr>"

text \<open>
  The title paragraph is placed before \<open>doc.paragraphs[0]\<close>; on a document without
  paragraphs the index raises and the handler of the method leaves the document as it is.
  Every line, and then the separator, is added by
  \<open>summary_paragraph.insert_paragraph_after()\<close>, called on the title paragraph.
  The paragraph class of the document library has \<open>insert_paragraph_before\<close> and no
  \<open>insert_paragraph_after\<close>: the first call raises \<open>AttributeError\<close>, the handler of the
  method logs it, and the title paragraph is all that was added. The parameter
  \<open>insert_after\<close> is \<open>False\<close> for this library. It is \<open>True\<close> for a library that provides the
  method with the meaning of the repository's own helper \<open>_insert_paragraph_after\<close>, a new
  paragraph right after the receiver: every line then lands right after the title
  paragraph, in front of the lines added before it, and the separator in front of them all.
\<close>

definition add_summary_section :: "bool \<Rightarrow> docx_document \<Rightarrow> DocumentIssue list \<Rightarrow> docx_document" where
  "add_summary_section insert_after doc issues =
     (case doc of
        [] \<Rightarrow> doc
      | first # others \<Rightarrow>
          (if insert_after
           then [title_run] # [separator_run]
                # rev (map (\<lambda>line. [plain_run line]) (create_summary_content issues)) @ doc
           else [title_run] # doc))"

subsection \<open>annotate\_document\<close>

text \<open>
  \<open>sort(key=paragraph_index, reverse=True)\<close> is stable: insertions with the same index
  keep their order.
\<close>

definition sort_insertions :: "CommentInsertion list \<Rightarrow> CommentInsertion list" where
  "sort_insertions insertions = rev (sort_key ins_paragraph_index (rev insertions))"

definition annotate_document ::
  "(string list \<Rightarrow> string list) \<Rightarrow> bool \<Rightarrow> docx_document \<Rightarrow> DocumentIssue list \<Rightarrow> string \<Rightarrow> docx_document" where
  "annotate_document set_order insert_after doc issues document_text =
     (let comment_insertions = sort_insertions (create_comment_insertions set_order issues doc);
          doc' = foldl insert_comment doc comment_insertions
      in add_summary_section insert_after doc' issues)"

section \<open>Example inputs\<close>

definition dubai_text :: string where
  "dubai_text = ''Disputes go to the Dubai Courts.''"

definition bare_may_text :: string where
  "bare_may_text =
     ''we may go, may eat, may rest, may sing; perhaps twice, perhaps not''"

definition may_be_text :: string where
  "may_be_text =
     ''it may be, may have, may do, may  be; perhaps twice, perhaps not''"

definition many_modals_text :: string where
  "many_modals_text =
     ''may be, may be, may be, may be; perhaps perhaps perhaps perhaps''"

definition tie_text :: string where
  "tie_text = ''Company name, registered office, company registration, registered address''"

definition plain_text :: string where
  "plain_text = ''A picnic by the river''"

text \<open>A batch of two documents, classified as Articles and Memorandum of Association.\<close>

definition aoa_doc :: parsed_doc where
  "aoa_doc = \<lparr> pd_filename = ''aoa.docx'', pd_text_content = ''Articles of Association'',
      pd_word_count = 3, pd_document_type = Some ARTICLES_OF_ASSOCIATION,
      pd_type_confidence = 1 / 7, pd_structured_content = [] \<rparr>"

definition moa_doc :: parsed_doc where
  "moa_doc = \<lparr> pd_filename = ''moa.docx'', pd_text_content = ''Memorandum of Association'',
      pd_word_count = 3, pd_document_type = Some MEMORANDUM_OF_ASSOCIATION,
      pd_type_confidence = 1 / 6, pd_structured_content = [] \<rparr>"

text \<open>A document whose structured content has a section without the entry \<open>text\<close>.\<close>

definition broken_sections :: structured_content where
  "broken_sections = [(''sections'', [[(''index'', PInt 0)]])]"

definition broken_doc :: parsed_doc where
  "broken_doc = \<lparr> pd_filename = ''aoa.docx'', pd_text_content = dubai_text,
      pd_word_count = 6, pd_document_type = Some ARTICLES_OF_ASSOCIATION,
      pd_type_confidence = 3 / 7, pd_structured_content = broken_sections \<rparr>"

text \<open>A document of two paragraphs and the issues raised for it.\<close>

definition sample_doc :: docx_document where
  "sample_doc = [[plain_run ''Share capital is AED 100''], [plain_run ''Disputes go to Dubai Courts'']]"

definition sample_issues :: "DocumentIssue list" where
  "sample_issues =
     [incorrect_jurisdiction_issue ARTICLES_OF_ASSOCIATION ''dubai courts'',
      missing_jurisdiction_issue ARTICLES_OF_ASSOCIATION]"

definition courts_paragraph :: docx_paragraph where
  "courts_paragraph = [plain_run ''Disputes go to '', plain_run ''Dubai Courts'']"

text \<open>One issue of each of three severities, to be scored.\<close>

definition high_issue :: DocumentIssue where
  "high_issue = missing_jurisdiction_issue ARTICLES_OF_ASSOCIATION"

definition medium_issue :: DocumentIssue where
  "medium_issue = signature_issue ARTICLES_OF_ASSOCIATION"

definition critical_issue :: DocumentIssue where
  "critical_issue = (missing_jurisdiction_issue ARTICLES_OF_ASSOCIATION) \<lparr> i_severity := CRITICAL \<rparr>"

text \<open>The text of \<open>test_detect_red_flags_ambiguous_language\<close> (tests/test\_compliance\_checker.py).\<close>

definition test_ambiguous_text :: string where
  "test_ambiguous_text =
     [CHR 0x0A] @ ''        The company may do business activities.''
     @ [CHR 0x0A] @ ''        Directors should have powers.''
     @ [CHR 0x0A] @ ''        The company might issue shares.''
     @ [CHR 0x0A] @ ''        Perhaps the company will have meetings.''
     @ [CHR 0x0A] @ ''        ''"

section \<open>Properties of the double arithmetic and of the scorer\<close>

lemma round_half_even_floor_ceiling:
  "\<lfloor>x\<rfloor> \<le> round_half_even x \<and> round_half_even x \<le> \<lceil>x\<rceil>"
  unfolding round_half_even_def Let_def
  by (auto simp: ceiling_altdef)

lemma round_half_even_near: "\<bar>of_int (round_half_even x) - x\<bar> \<le> 1 / 2"
proof -
  have f: "of_int \<lfloor>x\<rfloor> \<le> x" "x < of_int \<lfloor>x\<rfloor> + 1" by linarith+
  show ?thesis
    unfolding round_half_even_def Let_def using f by (auto simp: abs_le_iff)
qed

lemma round_half_even_tie:
  "\<bar>of_int (round_half_even x) - x\<bar> < 1 / 2 \<or> even (round_half_even x)"
proof -
  have f: "of_int \<lfloor>x\<rfloor> \<le> x" "x < of_int \<lfloor>x\<rfloor> + 1" by linarith+
  show ?thesis
    unfolding round_half_even_def Let_def using f by (auto simp: abs_less_iff)
qed

lemma round_half_even_mono:
  assumes "x \<le> y"
  shows "round_half_even x \<le> round_half_even y"
proof (cases "\<lfloor>x\<rfloor> = \<lfloor>y\<rfloor>")
  case True
  have "x - of_int \<lfloor>x\<rfloor> \<le> y - of_int \<lfloor>y\<rfloor>" using assms True by simp
  then show ?thesis
    unfolding round_half_even_def Let_def using True by auto
next
  case False
  with assms have "\<lfloor>x\<rfloor> < \<lfloor>y\<rfloor>" by (simp add: floor_mono order_less_le)
  moreover have "round_half_even x \<le> \<lfloor>x\<rfloor> + 1"
    unfolding round_half_even_def Let_def by auto
  moreover have "\<lfloor>y\<rfloor> \<le> round_half_even y"
    using round_half_even_floor_ceiling by blast
  ultimately show ?thesis by linarith
qed

lemma round_half_even_of_int: "round_half_even (of_int n) = n"
  by (simp add: round_half_even_def)

lemma abs_quotient:
  assumes "x \<noteq> 0" and "quotient_of \<bar>x\<bar> = (p, q)"
  shows "0 < p" "0 < q" "\<bar>x\<bar> = of_int p / of_int q"
proof -
  show q: "0 < q" using assms(2) by (rule quotient_of_denom_pos)
  show eq: "\<bar>x\<bar> = of_int p / of_int q" using assms(2) by (rule quotient_of_div)
  have "0 < \<bar>x\<bar>" using assms(1) by simp
  with eq q show "0 < p" by (simp add: zero_less_divide_iff)
qed

lemma ilog2_bounds:
  assumes "x \<noteq> 0"
  shows "2 powi (ilog2 x) \<le> \<bar>x\<bar>" and "\<bar>x\<bar> < 2 powi (ilog2 x + 1)"
proof -
  obtain p q where pq: "quotient_of \<bar>x\<bar> = (p, q)" by (cases "quotient_of \<bar>x\<bar>")
  note a = abs_quotient [OF assms pq]
  let ?bp = "bitlen p" and ?bq = "bitlen q"
  from bitlen_bounds [OF a(1)] have p: "2 ^ nat (?bp - 1) \<le> p" "p < 2 ^ nat ?bp" by simp_all
  from bitlen_bounds [OF a(2)] have q: "2 ^ nat (?bq - 1) \<le> q" "q < 2 ^ nat ?bq" by simp_all
  have bp1: "1 \<le> ?bp" using a(1) by (auto simp: bitlen_alt_def)
  have bq1: "1 \<le> ?bq" using a(2) by (auto simp: bitlen_alt_def)
  have rp: "(2::rat) powi (?bp - 1) \<le> of_int p" "of_int p < (2::rat) powi ?bp"
  proof -
    have "(of_int (2 ^ nat (?bp - 1)) :: rat) \<le> of_int p" using p(1) by (simp only: of_int_le_iff)
    then show "(2::rat) powi (?bp - 1) \<le> of_int p" using bp1 by (simp add: power_int_nonneg_exp)
    have "(of_int p :: rat) < of_int (2 ^ nat ?bp)" using p(2) by (simp only: of_int_less_iff)
    then show "of_int p < (2::rat) powi ?bp" using bp1 by (simp add: power_int_nonneg_exp)
  qed
  have rq: "(2::rat) powi (?bq - 1) \<le> of_int q" "of_int q < (2::rat) powi ?bq"
  proof -
    have "(of_int (2 ^ nat (?bq - 1)) :: rat) \<le> of_int q" using q(1) by (simp only: of_int_le_iff)
    then show "(2::rat) powi (?bq - 1) \<le> of_int q" using bq1 by (simp add: power_int_nonneg_exp)
    have "(of_int q :: rat) < of_int (2 ^ nat ?bq)" using q(2) by (simp only: of_int_less_iff)
    then show "of_int q < (2::rat) powi ?bq" using bq1 by (simp add: power_int_nonneg_exp)
  qed
  have qpos: "(0::rat) < of_int q" using a(2) by simp
  have ppos: "(0::rat) < of_int p" using a(1) by simp
  let ?b = "?bp - ?bq"
  have lo: "(2::rat) powi (?b - 1) < \<bar>x\<bar>"
  proof -
    have e: "?bp - 1 - ?bq = ?b - 1" by simp
    have "(2::rat) powi (?bp - 1 - ?bq) = 2 powi (?bp - 1) / 2 powi ?bq"
      by (rule power_int_diff) simp
    then have "(2::rat) powi (?b - 1) = 2 powi (?bp - 1) / 2 powi ?bq"
      unfolding e by simp
    also have "\<dots> \<le> of_int p / 2 powi ?bq"
      using rp(1) by (simp add: divide_right_mono)
    also have "\<dots> < of_int p / of_int q"
      using rq(2) ppos qpos by (intro divide_strict_left_mono) simp_all
    finally show ?thesis using a(3) by simp
  qed
  have hi: "\<bar>x\<bar> < (2::rat) powi (?b + 1)"
  proof -
    have "\<bar>x\<bar> = of_int p / of_int q" by (rule a(3))
    also have "\<dots> < 2 powi ?bp / of_int q"
      using rp(2) qpos by (simp add: divide_strict_right_mono)
    also have "\<dots> \<le> 2 powi ?bp / 2 powi (?bq - 1)"
      using rq(1) by (intro frac_le) simp_all
    also have "\<dots> = (2::rat) powi (?b + 1)"
    proof -
      have e: "?bp - (?bq - 1) = ?b + 1" by simp
      have "(2::rat) powi (?bp - (?bq - 1)) = 2 powi ?bp / 2 powi (?bq - 1)"
        by (rule power_int_diff) simp
      then show ?thesis unfolding e by simp
    qed
    finally show ?thesis .
  qed
  have il: "ilog2 x = (if 2 powi ?b \<le> \<bar>x\<bar> then ?b else ?b - 1)"
    by (simp add: ilog2_def pq Let_def)
  show "2 powi (ilog2 x) \<le> \<bar>x\<bar>"
    using lo by (simp add: il)
  show "\<bar>x\<bar> < 2 powi (ilog2 x + 1)"
    using hi by (simp add: il)
qed

lemma ulp_at_pos: "0 < ulp_at x"
  by (simp add: ulp_at_def)

lemma ulp_at_scale:
  assumes "x \<noteq> 0"
  shows "2 ^ 52 * ulp_at x \<le> \<bar>x\<bar>" and "\<bar>x\<bar> < 2 ^ 53 * ulp_at x"
proof -
  have a: "(2::rat) powi (ilog2 x) = 2 ^ 52 * ulp_at x"
  proof -
    have "(2::rat) powi (52 + (ilog2 x - 52)) = 2 powi 52 * 2 powi (ilog2 x - 52)"
      by (rule power_int_add) simp
    then show ?thesis by (simp add: ulp_at_def)
  qed
  have b: "(2::rat) powi (ilog2 x + 1) = 2 ^ 53 * ulp_at x"
  proof -
    have "(2::rat) powi (53 + (ilog2 x - 52)) = 2 powi 53 * 2 powi (ilog2 x - 52)"
      by (rule power_int_add) simp
    moreover have "53 + (ilog2 x - 52) = ilog2 x + 1" by simp
    ultimately show ?thesis by (simp add: ulp_at_def)
  qed
  from ilog2_bounds [OF assms] show "2 ^ 52 * ulp_at x \<le> \<bar>x\<bar>" "\<bar>x\<bar> < 2 ^ 53 * ulp_at x"
    unfolding a b by simp_all
qed

lemma nearest_double_near: "\<bar>nearest_double x - x\<bar> \<le> \<bar>x\<bar> / 2 ^ 53"
proof (cases "x = 0")
  case True
  then show ?thesis by (simp add: nearest_double_def)
next
  case False
  let ?u = "ulp_at x"
  have u: "0 < ?u" by (rule ulp_at_pos)
  have "nearest_double x - x = (of_int (round_half_even (x / ?u)) - x / ?u) * ?u"
    using False u by (simp add: nearest_double_def algebra_simps)
  then have "\<bar>nearest_double x - x\<bar> = \<bar>of_int (round_half_even (x / ?u)) - x / ?u\<bar> * ?u"
    using u by (simp add: abs_mult)
  also have "\<dots> \<le> 1 / 2 * ?u"
    using round_half_even_near [of "x / ?u"] u by (intro mult_right_mono) simp_all
  also have "\<dots> \<le> \<bar>x\<bar> / 2 ^ 53"
    using ulp_at_scale(1) [OF False] by simp
  finally show ?thesis .
qed

lemma nearest_double_nonneg: "0 \<le> x \<Longrightarrow> 0 \<le> nearest_double x"
proof -
  assume x: "0 \<le> x"
  have "0 \<le> x / ulp_at x" using x ulp_at_pos [of x] by simp
  then have "0 \<le> \<lfloor>x / ulp_at x\<rfloor>" by simp
  with round_half_even_floor_ceiling [of "x / ulp_at x"]
  have "0 \<le> round_half_even (x / ulp_at x)" by linarith
  then show ?thesis using ulp_at_pos [of x] by (simp add: nearest_double_def)
qed

lemma nearest_double_nonpos: "x \<le> 0 \<Longrightarrow> nearest_double x \<le> 0"
proof -
  assume x: "x \<le> 0"
  have "x / ulp_at x \<le> 0" using x ulp_at_pos [of x] by (simp add: divide_le_0_iff)
  then have "\<lceil>x / ulp_at x\<rceil> \<le> 0" by (simp add: ceiling_le_iff)
  with round_half_even_floor_ceiling [of "x / ulp_at x"]
  have "round_half_even (x / ulp_at x) \<le> 0" by linarith
  then have "(of_int (round_half_even (x / ulp_at x)) :: rat) \<le> 0" by simp
  then show ?thesis using ulp_at_pos [of x]
    by (simp add: nearest_double_def mult_le_0_iff)
qed

lemma nearest_double_binade:
  assumes "0 < x"
  shows "2 ^ 52 * ulp_at x \<le> nearest_double x" and "nearest_double x \<le> 2 ^ 53 * ulp_at x"
proof -
  let ?u = "ulp_at x"
  have u: "0 < ?u" by (rule ulp_at_pos)
  from assms have ne: "x \<noteq> 0" by simp
  from ulp_at_scale [OF ne] assms have "2 ^ 52 * ?u \<le> x" "x < 2 ^ 53 * ?u" by simp_all
  then have q: "2 ^ 52 \<le> x / ?u" "x / ?u \<le> 2 ^ 53"
    using u by (simp_all add: pos_le_divide_eq pos_divide_le_eq)
  have "(of_int (2 ^ 52) :: rat) \<le> x / ?u" using q(1) by simp
  then have "2 ^ 52 \<le> \<lfloor>x / ?u\<rfloor>" by (simp only: le_floor_iff)
  moreover have "(x / ?u) \<le> of_int (2 ^ 53)" using q(2) by simp
  then have "\<lceil>x / ?u\<rceil> \<le> 2 ^ 53" by (simp only: ceiling_le_iff)
  ultimately have r: "2 ^ 52 \<le> round_half_even (x / ?u)" "round_half_even (x / ?u) \<le> 2 ^ 53"
    using round_half_even_floor_ceiling [of "x / ?u"] by linarith+
  have "(of_int (2 ^ 52) :: rat) \<le> of_int (round_half_even (x / ?u))"
    using r(1) by (simp only: of_int_le_iff)
  then have "2 ^ 52 * ?u \<le> of_int (round_half_even (x / ?u)) * ?u"
    using u by (intro mult_right_mono) simp_all
  then show "2 ^ 52 * ?u \<le> nearest_double x" using ne by (simp add: nearest_double_def)
  have "(of_int (round_half_even (x / ?u)) :: rat) \<le> of_int (2 ^ 53)"
    using r(2) by (simp only: of_int_le_iff)
  then have "of_int (round_half_even (x / ?u)) * ?u \<le> 2 ^ 53 * ?u"
    using u by (intro mult_right_mono) simp_all
  then show "nearest_double x \<le> 2 ^ 53 * ?u" using ne by (simp add: nearest_double_def)
qed

lemma nearest_double_mono_pos:
  assumes "0 < x" "x \<le> y"
  shows "nearest_double x \<le> nearest_double y"
proof -
  from assms have y: "0 < y" by simp
  from assms have nx: "x \<noteq> 0" and ny: "y \<noteq> 0" by simp_all
  have "(2::rat) powi (ilog2 x) \<le> \<bar>x\<bar>" by (rule ilog2_bounds(1) [OF nx])
  also have "\<dots> \<le> \<bar>y\<bar>" using assms by simp
  also have "\<dots> < 2 powi (ilog2 y + 1)" by (rule ilog2_bounds(2) [OF ny])
  finally have lt: "(2::rat) powi (ilog2 x) < 2 powi (ilog2 y + 1)" .
  have "ilog2 x < ilog2 y + 1"
  proof (rule ccontr)
    assume "\<not> ilog2 x < ilog2 y + 1"
    then have "ilog2 y + 1 \<le> ilog2 x" by simp
    then have "(2::rat) powi (ilog2 y + 1) \<le> 2 powi (ilog2 x)"
      by (intro power_int_increasing) simp_all
    with lt show False by simp
  qed
  then consider "ilog2 x = ilog2 y" | "ilog2 x + 1 \<le> ilog2 y" by linarith
  then show ?thesis
  proof cases
    case 1
    then have u: "ulp_at x = ulp_at y" by (simp add: ulp_at_def)
    have "x / ulp_at y \<le> y / ulp_at y"
      using assms(2) ulp_at_pos [of y] by (simp add: divide_right_mono)
    then have "round_half_even (x / ulp_at y) \<le> round_half_even (y / ulp_at y)"
      by (rule round_half_even_mono)
    then have "(of_int (round_half_even (x / ulp_at y)) :: rat) \<le> of_int (round_half_even (y / ulp_at y))"
      by (simp only: of_int_le_iff)
    then have "of_int (round_half_even (x / ulp_at y)) * ulp_at y
                 \<le> of_int (round_half_even (y / ulp_at y)) * ulp_at y"
      using ulp_at_pos [of y] by (intro mult_right_mono) simp_all
    then show ?thesis using nx ny by (simp add: nearest_double_def u)
  next
    case 2
    have "ilog2 x - 52 + 1 \<le> ilog2 y - 52" using 2 by simp
    then have "(2::rat) powi (ilog2 x - 52 + 1) \<le> 2 powi (ilog2 y - 52)"
      by (intro power_int_increasing) simp_all
    moreover have "(2::rat) powi (ilog2 x - 52 + 1) = 2 powi (ilog2 x - 52) * 2"
      by (subst power_int_add) simp_all
    ultimately have "2 * ulp_at x \<le> ulp_at y" by (simp add: ulp_at_def)
    then have "2 ^ 52 * (2 * ulp_at x) \<le> 2 ^ 52 * ulp_at y" by simp
    then have "2 ^ 53 * ulp_at x \<le> 2 ^ 52 * ulp_at y" by simp
    with nearest_double_binade(2) [OF assms(1)] nearest_double_binade(1) [OF y]
    show ?thesis by linarith
  qed
qed

lemma nearest_double_1: "nearest_double 1 = 1"
  by code_simp

lemma nearest_double_100: "nearest_double 100 = 100"
  by code_simp

lemma nearest_double_le_100: "x \<le> 100 \<Longrightarrow> nearest_double x \<le> 100"
proof -
  assume x: "x \<le> 100"
  show ?thesis
  proof (cases "0 < x")
    case True
    from nearest_double_mono_pos [OF True x] show ?thesis by (simp add: nearest_double_100)
  next
    case False
    then have "nearest_double x \<le> 0" by (intro nearest_double_nonpos) simp
    then show ?thesis by simp
  qed
qed

lemma nearest_double_ge_1: "1 \<le> x \<Longrightarrow> 1 \<le> nearest_double x"
  using nearest_double_mono_pos [of 1 x] by (simp add: nearest_double_1)

lemma nearest_double_le_1: "x \<le> 1 \<Longrightarrow> nearest_double x \<le> 1"
proof -
  assume x: "x \<le> 1"
  show ?thesis
  proof (cases "0 < x")
    case True
    from nearest_double_mono_pos [OF True x] show ?thesis by (simp add: nearest_double_1)
  next
    case False
    then have "nearest_double x \<le> 0" by (intro nearest_double_nonpos) simp
    then show ?thesis by simp
  qed
qed

lemma nearest_double_rel:
  assumes "0 \<le> x"
  shows "(1 - 1 / 2 ^ 53) * x \<le> nearest_double x" and "nearest_double x \<le> (1 + 1 / 2 ^ 53) * x"
proof -
  from nearest_double_near [of x] assms
  have "\<bar>nearest_double x - x\<bar> \<le> x / 2 ^ 53" by simp
  then have "nearest_double x - x \<le> x / 2 ^ 53" "- (nearest_double x - x) \<le> x / 2 ^ 53"
    unfolding abs_le_iff by blast+
  then have "x - x / 2 ^ 53 \<le> nearest_double x" "nearest_double x \<le> x + x / 2 ^ 53"
    by linarith+
  moreover have "(1 - 1 / 2 ^ 53) * x = x - x / 2 ^ 53" "(1 + 1 / 2 ^ 53) * x = x + x / 2 ^ 53"
    by (simp_all add: algebra_simps)
  ultimately show "(1 - 1 / 2 ^ 53) * x \<le> nearest_double x"
    "nearest_double x \<le> (1 + 1 / 2 ^ 53) * x"
    by simp_all
qed

text \<open>The rounded quotient of two rounded numbers stays within four units of relative error.\<close>

lemma rounded_quotient:
  fixes t d dx tf np :: rat
  assumes t: "0 \<le> t" and dx: "1 \<le> dx"
    and d: "(1 - 1 / 2 ^ 53) * dx \<le> d" "d \<le> (1 + 1 / 2 ^ 53) * dx"
    and tf: "(1 - 1 / 2 ^ 53) * t \<le> tf" "tf \<le> (1 + 1 / 2 ^ 53) * t"
    and np: "(1 - 1 / 2 ^ 53) * (tf / d) \<le> np" "np \<le> (1 + 1 / 2 ^ 53) * (tf / d)"
  shows "(1 - 4 / 2 ^ 53) * (t / dx) \<le> np" and "np \<le> (1 + 4 / 2 ^ 53) * (t / dx)"
proof -
  define a :: rat where "a = 1 - 1 / 2 ^ 53"
  define b :: rat where "b = 1 + 1 / 2 ^ 53"
  have a: "0 < a" and b: "0 < b" by (simp_all add: a_def b_def)
  have X: "0 \<le> t / dx" using t dx by simp
  have dpos: "0 < d"
  proof -
    have "0 < a * dx" using a dx by simp
    with d(1) show ?thesis unfolding a_def by linarith
  qed
  have tf0: "0 \<le> tf"
  proof -
    have "0 \<le> a * t" using a t by simp
    with tf(1) show ?thesis unfolding a_def by linarith
  qed
  have up: "tf / d \<le> (b * t) / (a * dx)"
    using tf(2) d(1) a dx tf0 unfolding a_def b_def by (intro frac_le) simp_all
  have lo: "(a * t) / (b * dx) \<le> tf / d"
    using tf(1) d(2) a t dpos unfolding a_def b_def by (intro frac_le) simp_all
  have "np \<le> b * (tf / d)" using np(2) by (simp add: b_def)
  also have "\<dots> \<le> b * ((b * t) / (a * dx))" using up b by (intro mult_left_mono) simp_all
  also have "\<dots> = (b * b / a) * (t / dx)" using a by simp
  also have "\<dots> \<le> (1 + 4 / 2 ^ 53) * (t / dx)"
  proof (rule mult_right_mono [OF _ X])
    show "b * b / a \<le> 1 + 4 / 2 ^ 53" by (simp add: a_def b_def)
  qed
  finally show "np \<le> (1 + 4 / 2 ^ 53) * (t / dx)" .
  have "(1 - 4 / 2 ^ 53) * (t / dx) \<le> (a * a / b) * (t / dx)"
  proof (rule mult_right_mono [OF _ X])
    show "1 - 4 / 2 ^ 53 \<le> a * a / b" by (simp add: a_def b_def)
  qed
  also have "\<dots> = a * ((a * t) / (b * dx))" using b by simp
  also have "\<dots> \<le> a * (tf / d)" using lo a by (intro mult_left_mono) simp_all
  also have "\<dots> \<le> np" using np(1) by (simp add: a_def)
  finally show "(1 - 4 / 2 ^ 53) * (t / dx) \<le> np" .
qed

lemma sum_weights_nonneg:
  "0 \<le> sum_list (map (\<lambda>i. severity_weights (i_severity i)) issues)"
proof (induction issues)
  case Nil
  then show ?case by simp
next
  case (Cons a issues)
  have "0 \<le> severity_weights (i_severity a)" by (cases "i_severity a") simp_all
  with Cons show ?case by simp
qed

lemma weights_case:
  "severity_weights s = (case s of LOW \<Rightarrow> 1 | MEDIUM \<Rightarrow> 3 | HIGH \<Rightarrow> 7 | CRITICAL \<Rightarrow> 15)"
  by (cases s) auto

text \<open>The penalty per hundred words as the source computes it, against the exact quotient.\<close>

lemma normalized_penalty_near:
  fixes t w :: rat
  assumes t: "0 \<le> t"
  defines "np \<equiv> (if 1 \<le> nearest_double w
                  then nearest_double (nearest_double t / nearest_double w)
                  else nearest_double t)"
  shows "(1 - 4 / 2 ^ 53) * (t / max w 1) \<le> np" and "np \<le> (1 + 4 / 2 ^ 53) * (t / max w 1)"
proof -
  have tf: "(1 - 1 / 2 ^ 53) * t \<le> nearest_double t" "nearest_double t \<le> (1 + 1 / 2 ^ 53) * t"
    using nearest_double_rel [OF t] by simp_all
  have tf0: "0 \<le> nearest_double t" using t by (rule nearest_double_nonneg)
  have both: "(1 - 4 / 2 ^ 53) * (t / max w 1) \<le> np \<and> np \<le> (1 + 4 / 2 ^ 53) * (t / max w 1)"
  proof (cases "1 \<le> nearest_double w")
    case True
    have d: "(1 - 1 / 2 ^ 53) * max w 1 \<le> nearest_double w
             \<and> nearest_double w \<le> (1 + 1 / 2 ^ 53) * max w 1"
    proof (cases "1 \<le> w")
      case True
      then have "max w 1 = w" "0 \<le> w" by simp_all
      with nearest_double_rel [of w] show ?thesis by simp
    next
      case False
      then have "nearest_double w \<le> 1" by (intro nearest_double_le_1) simp
      with \<open>1 \<le> nearest_double w\<close> have "nearest_double w = 1" by simp
      moreover have "max w 1 = 1" using False by simp
      ultimately show ?thesis by simp
    qed
    have q0: "0 \<le> nearest_double t / nearest_double w" using tf0 True by simp
    have npq: "(1 - 1 / 2 ^ 53) * (nearest_double t / nearest_double w) \<le> np"
      "np \<le> (1 + 1 / 2 ^ 53) * (nearest_double t / nearest_double w)"
      using nearest_double_rel [OF q0] True by (simp_all add: np_def)
    have dx: "1 \<le> max w 1" by simp
    from rounded_quotient [OF t dx conjunct1 [OF d] conjunct2 [OF d] tf npq]
    show ?thesis by blast
  next
    case False
    have "w < 1"
    proof (rule ccontr)
      assume "\<not> w < 1"
      then have "1 \<le> nearest_double w" by (intro nearest_double_ge_1) simp
      with False show False by simp
    qed
    then have m: "t / max w 1 = t" by simp
    have n: "np = nearest_double t" using False by (simp add: np_def)
    have "(1 - 4 / 2 ^ 53) * t \<le> (1 - 1 / 2 ^ 53) * t"
      using t by (intro mult_right_mono) simp_all
    moreover have "(1 + 1 / 2 ^ 53) * t \<le> (1 + 4 / 2 ^ 53) * t"
      using t by (intro mult_right_mono) simp_all
    ultimately show ?thesis unfolding m n using tf by linarith
  qed
  from both show "(1 - 4 / 2 ^ 53) * (t / max w 1) \<le> np" by blast
  from both show "np \<le> (1 + 4 / 2 ^ 53) * (t / max w 1)" by blast
qed

text \<open>The score before the last rounding, against the exact value of the formula.\<close>

lemma raw_score_near:
  fixes x np :: rat
  assumes x: "0 \<le> x"
    and lo: "(1 - 4 / 2 ^ 53) * x \<le> np" and hi: "np \<le> (1 + 4 / 2 ^ 53) * x"
  defines "s \<equiv> max 0 (nearest_double (100 - np))"
  shows "\<bar>s - max 0 (100 - x)\<bar> \<le> 1101 / 2 ^ 53" and "0 \<le> s" and "s \<le> 100"
proof -
  have np0: "0 \<le> np"
  proof -
    have "0 \<le> (1 - 4 / 2 ^ 53) * x" using x by (intro mult_nonneg_nonneg) simp_all
    with lo show ?thesis by linarith
  qed
  show "0 \<le> s" by (simp add: s_def)
  have "nearest_double (100 - np) \<le> 100" using np0 by (intro nearest_double_le_100) simp
  then show "s \<le> 100" by (simp add: s_def)
  show "\<bar>s - max 0 (100 - x)\<bar> \<le> 1101 / 2 ^ 53"
  proof (cases "x \<le> 200")
    case True
    have a: "\<bar>np - x\<bar> \<le> 800 / 2 ^ 53"
    proof -
      have "(1 - 4 / 2 ^ 53) * x = x - 4 * x / 2 ^ 53" "(1 + 4 / 2 ^ 53) * x = x + 4 * x / 2 ^ 53"
        by (simp_all add: algebra_simps)
      with lo hi have "x - 4 * x / 2 ^ 53 \<le> np" "np \<le> x + 4 * x / 2 ^ 53" by simp_all
      moreover have "4 * x / 2 ^ 53 \<le> 800 / 2 ^ 53" using True by simp
      ultimately show ?thesis by linarith
    qed
    moreover have "(800::rat) / 2 ^ 53 \<le> 1" by simp
    ultimately have np201: "np \<le> 201" using True by linarith
    have "\<bar>nearest_double (100 - np) - (100 - np)\<bar> \<le> \<bar>100 - np\<bar> / 2 ^ 53"
      by (rule nearest_double_near)
    also have "\<dots> \<le> 301 / 2 ^ 53"
    proof -
      have "\<bar>100 - np\<bar> \<le> 301" using np0 np201 by linarith
      then show ?thesis by (intro divide_right_mono) simp_all
    qed
    finally have b: "\<bar>nearest_double (100 - np) - (100 - np)\<bar> \<le> 301 / 2 ^ 53" .
    have "(800::rat) / 2 ^ 53 + 301 / 2 ^ 53 = 1101 / 2 ^ 53" by simp
    with a b have "\<bar>nearest_double (100 - np) - (100 - x)\<bar> \<le> 1101 / 2 ^ 53"
      by linarith
    moreover have "\<bar>max 0 (nearest_double (100 - np)) - max 0 (100 - x)\<bar>
                     \<le> \<bar>nearest_double (100 - np) - (100 - x)\<bar>"
      by linarith
    ultimately show ?thesis unfolding s_def by linarith
  next
    case False
    have "(100::rat) < (1 - 4 / 2 ^ 53) * 200" by simp
    also have "\<dots> \<le> (1 - 4 / 2 ^ 53) * x" using False by (intro mult_left_mono) simp_all
    finally have "100 < np" using lo by linarith
    then have "nearest_double (100 - np) \<le> 0" by (intro nearest_double_nonpos) simp
    then have "s = 0" by (simp add: s_def)
    moreover have "max 0 (100 - x) = 0" using False by simp
    ultimately show ?thesis by simp
  qed
qed

text \<open>
  C1. The score is the double nearest to a number with one decimal place, \<open>k / 10\<close> with
  \<open>0 \<le> k \<le> 1000\<close>, and that number is the value of
  \<open>max(0, 100 - (sum of the weights Low 1, Medium 3, High 7, Critical 15) / max(word_count / 100, 1))\<close>
  rounded to one decimal place: it differs from the exact value of the formula by at most
  half a tenth, up to the rounding error of the double arithmetic, which is below
  \<open>2 ^ -40\<close>. The score differs from \<open>k / 10\<close> by less than \<open>2 ^ -46\<close> and lies
  between 0 and 100.
\<close>

theorem compliance_score_formula:
  "\<exists>k. 0 \<le> k \<and> k \<le> 1000
      \<and> calculate_compliance_score issues word_count = nearest_double (of_int k / 10)
      \<and> \<bar>(of_int k :: rat) / 10
           - max 0 (100 - of_int (\<Sum>i\<leftarrow>issues. case i_severity i of
                                     LOW \<Rightarrow> 1 | MEDIUM \<Rightarrow> 3 | HIGH \<Rightarrow> 7 | CRITICAL \<Rightarrow> 15)
                            / max (of_int word_count / 100) 1)\<bar>
          \<le> 1 / 20 + 1 / 2 ^ 40
      \<and> \<bar>calculate_compliance_score issues word_count - of_int k / 10\<bar> \<le> 1 / 2 ^ 46
      \<and> 0 \<le> calculate_compliance_score issues word_count
      \<and> calculate_compliance_score issues word_count \<le> 100"
proof -
  let ?total = "sum_list (map (\<lambda>i. severity_weights (i_severity i)) issues)"
  let ?t = "of_int ?total :: rat"
  let ?w = "of_int word_count / 100 :: rat"
  let ?x = "?t / max ?w 1"
  let ?exact = "max 0 (100 - ?x)"
  have total: "(\<Sum>i\<leftarrow>issues. case i_severity i of
                   LOW \<Rightarrow> 1 | MEDIUM \<Rightarrow> 3 | HIGH \<Rightarrow> 7 | CRITICAL \<Rightarrow> 15) = ?total"
    by (simp add: weights_case)
  have t0: "0 \<le> ?t" using sum_weights_nonneg [of issues] by simp
  have x0: "0 \<le> ?x" using t0 by simp
  define np where "np = (if 1 \<le> nearest_double ?w
                  then nearest_double (nearest_double ?t / nearest_double ?w)
                  else nearest_double ?t)"
  define s where "s = max 0 (nearest_double (100 - np))"
  define k where "k = (if issues = [] then 1000 else round_half_even (s * 10))"
  note pen = normalized_penalty_near [OF t0, of ?w, folded np_def]
  note raw = raw_score_near [OF x0 pen, folded s_def]
  have score: "calculate_compliance_score issues word_count = nearest_double (of_int k / 10)"
  proof (cases "issues = []")
    case True
    then show ?thesis by (simp add: calculate_compliance_score_def k_def nearest_double_100)
  next
    case False
    then show ?thesis
      by (simp add: calculate_compliance_score_def k_def Let_def py_round1_def s_def np_def)
  qed
  have krange: "0 \<le> k \<and> k \<le> 1000"
  proof (cases "issues = []")
    case True
    then show ?thesis by (simp add: k_def)
  next
    case False
    have "0 \<le> s * 10" "s * 10 \<le> 1000" using raw(2,3) by simp_all
    then have "0 \<le> \<lfloor>s * 10\<rfloor>" "\<lceil>s * 10\<rceil> \<le> 1000"
      by (simp_all add: ceiling_le_iff)
    with round_half_even_floor_ceiling [of "s * 10"]
    have "0 \<le> round_half_even (s * 10) \<and> round_half_even (s * 10) \<le> 1000"
      by linarith
    with False show ?thesis by (simp add: k_def)
  qed
  have near: "\<bar>of_int k / 10 - ?exact\<bar> \<le> 1 / 20 + 1 / 2 ^ 40"
  proof (cases "issues = []")
    case True
    then show ?thesis by (simp add: k_def)
  next
    case False
    then have kk: "k = round_half_even (s * 10)" by (simp add: k_def)
    have "\<bar>of_int k - s * 10\<bar> \<le> 1 / 2" unfolding kk by (rule round_half_even_near)
    then have a: "\<bar>of_int k / 10 - s\<bar> \<le> 1 / 20" by linarith
    have "(1101::rat) / 2 ^ 53 \<le> 1 / 2 ^ 40" by simp
    with raw(1) have b: "\<bar>s - ?exact\<bar> \<le> 1 / 2 ^ 40" by linarith
    from a b show ?thesis by linarith
  qed
  have k10: "(0::rat) \<le> of_int k / 10" "(of_int k :: rat) / 10 \<le> 100"
    using krange by simp_all
  have close: "\<bar>calculate_compliance_score issues word_count - of_int k / 10\<bar> \<le> 1 / 2 ^ 46"
  proof -
    have "\<bar>nearest_double (of_int k / 10) - of_int k / 10\<bar> \<le> \<bar>of_int k / 10\<bar> / 2 ^ 53"
      by (rule nearest_double_near)
    also have "\<dots> \<le> 100 / 2 ^ 53"
    proof -
      have "\<bar>(of_int k :: rat) / 10\<bar> \<le> 100" using k10 by linarith
      then show ?thesis by (intro divide_right_mono) simp_all
    qed
    also have "\<dots> \<le> 1 / 2 ^ 46" by simp
    finally show ?thesis unfolding score .
  qed
  have lo: "0 \<le> calculate_compliance_score issues word_count"
    unfolding score using k10(1) by (rule nearest_double_nonneg)
  have hi: "calculate_compliance_score issues word_count \<le> 100"
    unfolding score using k10(2) by (rule nearest_double_le_100)
  from krange have k1: "0 \<le> k" and k2: "k \<le> 1000" by simp_all
  have "0 \<le> k \<and> k \<le> 1000
      \<and> calculate_compliance_score issues word_count = nearest_double (of_int k / 10)
      \<and> \<bar>of_int k / 10 - ?exact\<bar> \<le> 1 / 20 + 1 / 2 ^ 40
      \<and> \<bar>calculate_compliance_score issues word_count - of_int k / 10\<bar> \<le> 1 / 2 ^ 46
      \<and> 0 \<le> calculate_compliance_score issues word_count
      \<and> calculate_compliance_score issues word_count \<le> 100"
    using k1 k2 score near close lo hi by - (intro conjI; assumption)
  then show ?thesis unfolding total by (rule exI)
qed

lemma score_examples:
  "calculate_compliance_score [high_issue] 2000 = nearest_double (997 / 10)"
  "calculate_compliance_score [medium_issue, medium_issue, medium_issue] 2000 = nearest_double (995 / 10)"
  "calculate_compliance_score [critical_issue, high_issue] 4000 = nearest_double (995 / 10)"
  "calculate_compliance_score [medium_issue] 400 = nearest_double (992 / 10)"
  "calculate_compliance_score [] 0 = 100"
  by code_simp+

text \<open>
  C1 at scores whose exact value ends in a five at the second decimal place: 99.65 goes to
  99.7, 99.55 and 99.45 go to 99.5, and 99.25, which is a double, goes to 99.2.
\<close>

theorem compliance_score_formula_witness:
  "calculate_compliance_score [high_issue] 2000 = nearest_double (997 / 10)
   \<and> calculate_compliance_score [medium_issue, medium_issue, medium_issue] 2000 = nearest_double (995 / 10)
   \<and> calculate_compliance_score [critical_issue, high_issue] 4000 = nearest_double (995 / 10)
   \<and> calculate_compliance_score [medium_issue] 400 = nearest_double (992 / 10)
   \<and> calculate_compliance_score [] 0 = 100
   \<and> 0 \<le> calculate_compliance_score [high_issue] 2000
   \<and> calculate_compliance_score [high_issue] 2000 \<le> 100"
  using compliance_score_formula [of "[high_issue]" 2000] score_examples by blast

section \<open>Properties of the deduplicator\<close>

lemma dedup_loop_distinct:
  "distinct (map signature acc) \<Longrightarrow> signature ` set acc \<subseteq> seen \<Longrightarrow>
     distinct (map signature (dedup_loop xs seen acc))"
proof (induction xs arbitrary: seen acc)
  case Nil
  then show ?case by simp
next
  case (Cons x xs)
  show ?case
  proof (cases "signature x \<in> seen")
    case True
    with Cons show ?thesis by simp
  next
    case False
    have "distinct (map signature (acc @ [x]))"
      using Cons.prems False by auto
    moreover have "signature ` set (acc @ [x]) \<subseteq> insert (signature x) seen"
      using Cons.prems by auto
    ultimately have "distinct (map signature (dedup_loop xs (insert (signature x) seen) (acc @ [x])))"
      by (rule Cons.IH)
    with False show ?thesis by simp
  qed
qed

lemma dedup_loop_fixed:
  "distinct (map signature xs) \<Longrightarrow> signature ` set xs \<inter> seen = {} \<Longrightarrow>
     dedup_loop xs seen acc = acc @ xs"
proof (induction xs arbitrary: seen acc)
  case Nil
  then show ?case by simp
next
  case (Cons x xs)
  from Cons.prems have notin: "signature x \<notin> seen" by auto
  have "distinct (map signature xs)" using Cons.prems by simp
  moreover have "signature ` set xs \<inter> insert (signature x) seen = {}"
    using Cons.prems by auto
  ultimately have "dedup_loop xs (insert (signature x) seen) (acc @ [x]) = (acc @ [x]) @ xs"
    by (rule Cons.IH)
  with notin show ?case by simp
qed

lemma signature_of_triple:
  "issue_triple a = issue_triple b \<Longrightarrow> signature a = signature b"
  by (simp add: issue_triple_def signature_def)

lemma distinct_triples:
  "distinct (map signature xs) \<Longrightarrow> distinct (map issue_triple xs)"
proof (induction xs)
  case Nil
  then show ?case by simp
next
  case (Cons x xs)
  have "issue_triple x \<notin> issue_triple ` set xs"
  proof
    assume "issue_triple x \<in> issue_triple ` set xs"
    then obtain y where "y \<in> set xs" "issue_triple x = issue_triple y" by auto
    then have "signature x \<in> signature ` set xs"
      using signature_of_triple [of x y] by (simp add: image_iff) blast
    with Cons.prems show False by simp
  qed
  with Cons show ?case by simp
qed

text \<open>
  The triples (section, issue text, severity) of the deduplicated issues are pairwise
  different, and deduplicating a second time changes nothing.
\<close>

theorem deduplicate_unique_idempotent:
  "distinct (map issue_triple (deduplicate_issues issues))
   \<and> deduplicate_issues (deduplicate_issues issues) = deduplicate_issues issues"
proof -
  have d: "distinct (map signature (deduplicate_issues issues))"
    unfolding deduplicate_issues_def by (rule dedup_loop_distinct) simp_all
  have "distinct (map issue_triple (deduplicate_issues issues))"
    using d by (rule distinct_triples)
  moreover have "deduplicate_issues (deduplicate_issues issues) = deduplicate_issues issues"
    using dedup_loop_fixed [OF d, of "{}" "[]"] by (simp add: deduplicate_issues_def)
  ultimately show ?thesis by simp
qed

text \<open>
  C2 says that the first occurrence of every triple (section, issue text, severity) is
  returned. The code compares the three fields joined by underscores, an absent section
  written as \<open>None\<close>, and two different triples can join to the same text. Of \<open>clash_a\<close>
  and \<open>clash_b\<close>, and of \<open>none_a\<close> and \<open>none_b\<close>, the second is dropped although its
  triple has not occurred before.
\<close>

theorem deduplicate_drops_new_triple:
  "issue_triple clash_a \<noteq> issue_triple clash_b
   \<and> signature clash_a = signature clash_b
   \<and> deduplicate_issues [clash_a, clash_b] = [clash_a]
   \<and> issue_triple none_a \<noteq> issue_triple none_b
   \<and> signature none_a = signature none_b
   \<and> deduplicate_issues [none_a, none_b] = [none_a]"
  by (simp add: issue_triple_def deduplicate_issues_def signature_def
        clash_a_def clash_b_def none_a_def none_b_def)

section \<open>Facts about searching\<close>

lemma finditer_from_nonempty:
  "search_from r p xs \<Longrightarrow> finditer_from r 0 p xs \<noteq> []"
proof (induction xs arbitrary: p)
  case Nil
  then show ?case by simp
next
  case (Cons c cs)
  show ?case
  proof (cases "rmatch r (p, c # cs)")
    case Nil
    with Cons.prems have "search_from r (Some c) cs" by simp
    then have "finditer_from r 0 (Some c) cs \<noteq> []" by (rule Cons.IH)
    with Nil show ?thesis by simp
  next
    case (Cons e es)
    then show ?thesis by (simp add: Let_def)
  qed
qed

lemma search_from_append:
  "(\<And>q. rmatch r (q, xs) \<noteq> []) \<Longrightarrow> search_from r p (pre @ xs)"
proof (induction pre arbitrary: p)
  case Nil
  then show ?case by (cases xs) simp_all
next
  case (Cons c pre)
  then show ?case by simp
qed

lemma strip_prefix_Some: "strip_prefix s xs = Some r \<longleftrightarrow> xs = s @ r"
  by (induction s xs rule: strip_prefix.induct) auto

lemma py_in_split: "py_in sub s \<Longrightarrow> \<exists>pre post. s = pre @ sub @ post"
proof (induction s)
  case Nil
  then show ?case by simp
next
  case (Cons c cs)
  show ?case
  proof (cases "strip_prefix sub (c # cs)")
    case (Some r)
    then have "c # cs = [] @ sub @ r" by (simp add: strip_prefix_Some)
    then show ?thesis by blast
  next
    case None
    with Cons.prems have "py_in sub cs" by simp
    then obtain pre post where "cs = pre @ sub @ post" using Cons.IH by blast
    then have "c # cs = (c # pre) @ sub @ post" by simp
    then show ?thesis by blast
  qed
qed

lemma dubai_courts_start:
  "rmatch (seqs [Str ''dubai'', sp, opt_last ''courts'']) (q, ''dubai courts'' @ post) \<noteq> []"
  by (simp add: seqs_def sp_def opt_last_def advance_def is_space_def code_point_def)

lemma lower_dubai: "lower ''Dubai Courts'' = ''dubai courts''"
  by (simp add: lower_def lower_char_def is_upper_def code_point_def)

lemma dubai_courts_found:
  assumes "py_in ''Dubai Courts'' text"
  shows "finditer (seqs [Str ''dubai'', sp, opt_last ''courts'']) (lower text) \<noteq> []"
proof -
  from assms obtain pre post where "text = pre @ ''Dubai Courts'' @ post"
    using py_in_split by blast
  then have "lower text = lower pre @ ''dubai courts'' @ lower post"
    using lower_dubai by (simp add: lower_def)
  moreover have "search_from (seqs [Str ''dubai'', sp, opt_last ''courts'']) None
                   (lower pre @ ''dubai courts'' @ lower post)"
    by (rule search_from_append) (rule dubai_courts_start)
  ultimately show ?thesis
    unfolding finditer_def by (simp add: finditer_from_nonempty)
qed

section \<open>Properties of the jurisdiction check\<close>

lemma missing_text_filter:
  "filter (\<lambda>i. i_issue i = ''Missing ADGM jurisdiction clause'')
      (map (incorrect_jurisdiction_issue doc_type) ms) = []"
  by (induction ms) (simp_all add: incorrect_jurisdiction_issue_def)

text \<open>
  C3. The jurisdiction check emits one High issue for every match of a disallowed
  jurisdiction pattern, and exactly one further High issue "Missing ADGM jurisdiction clause"
  if and only if no ADGM jurisdiction pattern is found and the type is Articles of
  Association, Memorandum of Association or Commercial Agreement. A text that contains
  "Dubai Courts" and no ADGM phrase, checked as Articles of Association, gets the missing
  clause issue and at least one issue for the disallowed reference.
\<close>

theorem check_jurisdiction_issues:
  "check_jurisdiction text doc_type =
      map (incorrect_jurisdiction_issue doc_type)
        (concat (map (\<lambda>pattern. finditer pattern (lower text)) incorrect_jurisdictions))
      @ (if \<not> has_adgm_jurisdiction text
            \<and> doc_type \<in> {ARTICLES_OF_ASSOCIATION, MEMORANDUM_OF_ASSOCIATION, COMMERCIAL_AGREEMENT}
         then [missing_jurisdiction_issue doc_type] else [])
   \<and> (\<forall>i \<in> set (check_jurisdiction text doc_type). i_severity i = HIGH)
   \<and> length (filter (\<lambda>i. i_issue i = ''Missing ADGM jurisdiction clause'')
                (check_jurisdiction text doc_type))
       = (if \<not> has_adgm_jurisdiction text
             \<and> doc_type \<in> {ARTICLES_OF_ASSOCIATION, MEMORANDUM_OF_ASSOCIATION, COMMERCIAL_AGREEMENT}
          then 1 else 0)
   \<and> (py_in ''Dubai Courts'' text \<and> \<not> has_adgm_jurisdiction text \<longrightarrow>
        missing_jurisdiction_issue ARTICLES_OF_ASSOCIATION
          \<in> set (check_jurisdiction text ARTICLES_OF_ASSOCIATION)
        \<and> (\<exists>m. incorrect_jurisdiction_issue ARTICLES_OF_ASSOCIATION m
                 \<in> set (check_jurisdiction text ARTICLES_OF_ASSOCIATION)))"
proof -
  let ?ms = "concat (map (\<lambda>pattern. finditer pattern (lower text)) incorrect_jurisdictions)"
  let ?c = "\<not> has_adgm_jurisdiction text
            \<and> doc_type \<in> {ARTICLES_OF_ASSOCIATION, MEMORANDUM_OF_ASSOCIATION, COMMERCIAL_AGREEMENT}"
  have shape: "\<And>ty. check_jurisdiction text ty =
      map (incorrect_jurisdiction_issue ty) ?ms
      @ (if \<not> has_adgm_jurisdiction text
            \<and> ty \<in> {ARTICLES_OF_ASSOCIATION, MEMORANDUM_OF_ASSOCIATION, COMMERCIAL_AGREEMENT}
         then [missing_jurisdiction_issue ty] else [])"
    by (simp add: check_jurisdiction_def jurisdiction_sensitive_def map_concat comp_def)
  have sev: "\<forall>i \<in> set (check_jurisdiction text doc_type). i_severity i = HIGH"
    unfolding shape
    by (auto simp: incorrect_jurisdiction_issue_def missing_jurisdiction_issue_def)
  have cnt: "length (filter (\<lambda>i. i_issue i = ''Missing ADGM jurisdiction clause'')
                (check_jurisdiction text doc_type)) = (if ?c then 1 else 0)"
    unfolding shape
    by (simp add: missing_text_filter missing_jurisdiction_issue_def)
  have scen: "missing_jurisdiction_issue ARTICLES_OF_ASSOCIATION
          \<in> set (check_jurisdiction text ARTICLES_OF_ASSOCIATION)
        \<and> (\<exists>m. incorrect_jurisdiction_issue ARTICLES_OF_ASSOCIATION m
                 \<in> set (check_jurisdiction text ARTICLES_OF_ASSOCIATION))"
    if a: "py_in ''Dubai Courts'' text" and b: "\<not> has_adgm_jurisdiction text"
  proof -
    from a have "finditer (seqs [Str ''dubai'', sp, opt_last ''courts'']) (lower text) \<noteq> []"
      by (rule dubai_courts_found)
    then obtain m where "m \<in> set (finditer (seqs [Str ''dubai'', sp, opt_last ''courts'']) (lower text))"
      by (cases "finditer (seqs [Str ''dubai'', sp, opt_last ''courts'']) (lower text)") auto
    then have "m \<in> set ?ms" by (simp add: incorrect_jurisdictions_def)
    then have "incorrect_jurisdiction_issue ARTICLES_OF_ASSOCIATION m
                 \<in> set (check_jurisdiction text ARTICLES_OF_ASSOCIATION)"
      unfolding shape by simp
    moreover have "missing_jurisdiction_issue ARTICLES_OF_ASSOCIATION
          \<in> set (check_jurisdiction text ARTICLES_OF_ASSOCIATION)"
      unfolding shape using b by simp
    ultimately show ?thesis by blast
  qed
  from shape [of doc_type] sev cnt scen show ?thesis by blast
qed

lemma dubai_text_eval:
  "py_in ''Dubai Courts'' dubai_text"
  "\<not> has_adgm_jurisdiction dubai_text"
  "check_jurisdiction dubai_text ARTICLES_OF_ASSOCIATION
     = [incorrect_jurisdiction_issue ARTICLES_OF_ASSOCIATION ''dubai courts'',
        missing_jurisdiction_issue ARTICLES_OF_ASSOCIATION]"
  by code_simp+

text \<open>C3 at a sentence that names the Dubai Courts: two High issues.\<close>

theorem check_jurisdiction_issues_witness:
  "py_in ''Dubai Courts'' dubai_text \<and> \<not> has_adgm_jurisdiction dubai_text
   \<and> check_jurisdiction dubai_text ARTICLES_OF_ASSOCIATION
       = [incorrect_jurisdiction_issue ARTICLES_OF_ASSOCIATION ''dubai courts'',
          missing_jurisdiction_issue ARTICLES_OF_ASSOCIATION]
   \<and> (\<exists>m. incorrect_jurisdiction_issue ARTICLES_OF_ASSOCIATION m
            \<in> set (check_jurisdiction dubai_text ARTICLES_OF_ASSOCIATION))"
  using check_jurisdiction_issues [of dubai_text ARTICLES_OF_ASSOCIATION] dubai_text_eval
  by blast

section \<open>Properties of the ambiguous-language check\<close>

lemma ambiguous_loop_eq:
  "ambiguous_loop ps low ty =
     (if list_ex (\<lambda>p. 3 < length (finditer p low)) ps then [ambiguous_issue ty] else [])"
  by (induction ps) simp_all

lemma essential_not_ambiguous:
  "filter (\<lambda>i. i_issue i = ''Excessive use of ambiguous language'')
     (map (\<lambda>(pattern, info_name). essential_issue ty info_name) es) = []"
  by (induction es) (auto simp: essential_issue_def)

lemma date_not_ambiguous:
  "filter (\<lambda>i. i_issue i = ''Excessive use of ambiguous language'') (date_loop ps text ty) = []"
  by (induction ps) (simp_all add: date_issue_def)

lemma ambiguous_filter:
  "filter (\<lambda>i. i_issue i = ''Excessive use of ambiguous language'') (detect_red_flags text ty)
     = (if list_ex (\<lambda>p. 3 < length (finditer p (lower text))) ambiguous_patterns
        then [ambiguous_issue ty] else [])"
  by (simp add: detect_red_flags_def ambiguous_loop_eq essential_not_ambiguous date_not_ambiguous
        ambiguous_issue_def)

text \<open>
  When some pattern of the fixed list has more than three matches, the check emits exactly
  one ambiguous-language issue, of Medium severity, however many patterns have that many.
\<close>

theorem ambiguous_language_one_issue:
  "list_ex (\<lambda>p. 3 < length (finditer p (lower document_text))) ambiguous_patterns \<longrightarrow>
     filter (\<lambda>i. i_issue i = ''Excessive use of ambiguous language'')
       (detect_red_flags document_text ty) = [ambiguous_issue ty]
     \<and> i_severity (ambiguous_issue ty) = MEDIUM"
  by (simp add: ambiguous_filter) (simp add: ambiguous_issue_def)

lemma may_be_eval:
  "length (finditer (seqs [WordB, Str ''may'', sp, be_have_do]) (lower may_be_text)) = 4"
  "length (finditer (seqs [WordB, Str ''perhaps'']) (lower may_be_text)) = 2"
  "list_ex (\<lambda>p. 3 < length (finditer p (lower may_be_text))) ambiguous_patterns"
  by code_simp+

lemma many_modals_eval:
  "list_ex (\<lambda>p. 3 < length (finditer p (lower many_modals_text))) ambiguous_patterns"
  "length (finditer (seqs [WordB, Str ''may'', sp, be_have_do]) (lower many_modals_text)) = 4"
  "length (finditer (seqs [WordB, Str ''perhaps'']) (lower many_modals_text)) = 4"
  by code_simp+

text \<open>
  At a text with four matches of the first pattern and two of \<open>perhaps\<close>, and at a text
  in which two patterns have four matches each: one issue, not two.
\<close>

theorem ambiguous_language_one_issue_witness:
  "length (finditer (seqs [WordB, Str ''may'', sp, be_have_do]) (lower may_be_text)) = 4
   \<and> length (finditer (seqs [WordB, Str ''perhaps'']) (lower may_be_text)) = 2
   \<and> filter (\<lambda>i. i_issue i = ''Excessive use of ambiguous language'')
               (detect_red_flags may_be_text OTHER) = [ambiguous_issue OTHER]
   \<and> length (finditer (seqs [WordB, Str ''may'', sp, be_have_do]) (lower many_modals_text)) = 4
   \<and> length (finditer (seqs [WordB, Str ''perhaps'']) (lower many_modals_text)) = 4
   \<and> filter (\<lambda>i. i_issue i = ''Excessive use of ambiguous language'')
               (detect_red_flags many_modals_text OTHER) = [ambiguous_issue OTHER]"
proof -
  note t1 = ambiguous_language_one_issue [of may_be_text OTHER]
  note t2 = ambiguous_language_one_issue [of many_modals_text OTHER]
  from t1 may_be_eval(3)
  have a: "filter (\<lambda>i. i_issue i = ''Excessive use of ambiguous language'')
               (detect_red_flags may_be_text OTHER) = [ambiguous_issue OTHER]"
    by blast
  from t2 many_modals_eval(1)
  have b: "filter (\<lambda>i. i_issue i = ''Excessive use of ambiguous language'')
               (detect_red_flags many_modals_text OTHER) = [ambiguous_issue OTHER]"
    by blast
  from a b may_be_eval many_modals_eval show ?thesis by blast
qed

text \<open>
  C4 says that a text with four occurrences of "may" and two of "perhaps" gets exactly one
  ambiguous-language issue. The code counts matches of \<open>\bmay\s+(?:be|have|do)\<close>, each
  pattern on its own: the first text below has four "may" and two "perhaps" and gets no
  issue. The second is the text of the repository's test
  \<open>test_detect_red_flags_ambiguous_language\<close>, which expects an ambiguous-language issue:
  its patterns match 1, 1, 0, 0, 1 and 0 times, and it gets none either.
\<close>

theorem ambiguous_language_missed:
  "str_count bare_may_text ''may'' = 4 \<and> str_count bare_may_text ''perhaps'' = 2
   \<and> filter (\<lambda>i. i_issue i = ''Excessive use of ambiguous language'')
        (detect_red_flags bare_may_text OTHER) = []
   \<and> map (\<lambda>p. length (finditer p (lower test_ambiguous_text))) ambiguous_patterns
       = [1, 1, 0, 0, 1, 0]
   \<and> filter (\<lambda>i. i_issue i = ''Excessive use of ambiguous language'')
        (detect_red_flags test_ambiguous_text ARTICLES_OF_ASSOCIATION) = []"
  by code_simp

section \<open>Properties of the type classifier\<close>

lemma max_by_score_mem: "max_by_score b xs \<in> set (b # xs)"
  by (induction xs arbitrary: b) auto

lemma max_by_score_ge_best: "snd b \<le> snd (max_by_score b xs)"
proof (induction xs arbitrary: b)
  case Nil
  then show ?case by simp
next
  case (Cons x xs)
  show ?case
  proof (cases "snd b < snd x")
    case True
    have "snd x \<le> snd (max_by_score x xs)" by (rule Cons.IH)
    with True show ?thesis by simp
  next
    case False
    with Cons.IH [of b] show ?thesis by simp
  qed
qed

lemma max_by_score_ge: "y \<in> set (b # xs) \<Longrightarrow> snd y \<le> snd (max_by_score b xs)"
proof (induction xs arbitrary: b)
  case Nil
  then show ?case by simp
next
  case (Cons x xs)
  show ?case
  proof (cases "snd b < snd x")
    case True
    have r: "max_by_score b (x # xs) = max_by_score x xs" using True by simp
    from Cons.prems consider "y = b" | "y \<in> set (x # xs)" by auto
    then show ?thesis
    proof cases
      case 1
      have "snd x \<le> snd (max_by_score x xs)" by (rule max_by_score_ge_best)
      with True 1 r show ?thesis by simp
    next
      case 2
      then show ?thesis unfolding r by (rule Cons.IH)
    qed
  next
    case False
    have r: "max_by_score b (x # xs) = max_by_score b xs" using False by simp
    from Cons.prems consider "y = x" | "y \<in> set (b # xs)" by auto
    then show ?thesis
    proof cases
      case 1
      have "snd b \<le> snd (max_by_score b xs)" by (rule max_by_score_ge_best)
      with False 1 r show ?thesis by simp
    next
      case 2
      then show ?thesis unfolding r by (rule Cons.IH)
    qed
  qed
qed

lemma max_by_score_first:
  "\<exists>k < length (b # xs). (b # xs) ! k = max_by_score b xs
      \<and> (\<forall>j < k. snd ((b # xs) ! j) < snd (max_by_score b xs))"
proof (induction xs arbitrary: b)
  case Nil
  then show ?case by simp
next
  case (Cons x xs)
  show ?case
  proof (cases "snd b < snd x")
    case True
    have r: "max_by_score b (x # xs) = max_by_score x xs" using True by simp
    from Cons.IH [of x] obtain k where k: "k < length (x # xs)" "(x # xs) ! k = max_by_score x xs"
      "\<forall>j < k. snd ((x # xs) ! j) < snd (max_by_score x xs)" by blast
    have b: "snd b < snd (max_by_score x xs)"
      using True max_by_score_ge_best [of x xs] by simp
    have "\<forall>j < Suc k. snd ((b # x # xs) ! j) < snd (max_by_score x xs)"
      using k(3) b by (simp add: All_less_Suc2)
    with k(1,2) have "Suc k < length (b # x # xs) \<and> (b # x # xs) ! Suc k = max_by_score x xs
        \<and> (\<forall>j < Suc k. snd ((b # x # xs) ! j) < snd (max_by_score x xs))" by simp
    then show ?thesis unfolding r by blast
  next
    case False
    have r: "max_by_score b (x # xs) = max_by_score b xs" using False by simp
    from Cons.IH [of b] obtain k where k: "k < length (b # xs)" "(b # xs) ! k = max_by_score b xs"
      "\<forall>j < k. snd ((b # xs) ! j) < snd (max_by_score b xs)" by blast
    show ?thesis
    proof (cases k)
      case 0
      with k(2) have "0 < length (b # x # xs) \<and> (b # x # xs) ! 0 = max_by_score b xs
        \<and> (\<forall>j < 0. snd ((b # x # xs) ! j) < snd (max_by_score b xs))" by simp
      then show ?thesis unfolding r by blast
    next
      case (Suc k')
      from k(3) Suc have b: "snd b < snd (max_by_score b xs)" by auto
      with False have x: "snd x < snd (max_by_score b xs)" by simp
      from k(3) Suc have rest: "\<forall>j < k'. snd (xs ! j) < snd (max_by_score b xs)" by auto
      have "\<forall>j < Suc (Suc k'). snd ((b # x # xs) ! j) < snd (max_by_score b xs)"
        using b x rest by (simp add: All_less_Suc2)
      with k(1,2) Suc have "Suc (Suc k') < length (b # x # xs)
        \<and> (b # x # xs) ! Suc (Suc k') = max_by_score b xs
        \<and> (\<forall>j < Suc (Suc k'). snd ((b # x # xs) ! j) < snd (max_by_score b xs))" by simp
      then show ?thesis unfolding r by blast
    qed
  qed
qed

lemma max_by_score_Max: "snd (max_by_score b xs) = Max (snd ` set (b # xs))"
proof (rule sym, rule Max_eqI)
  show "finite (snd ` set (b # xs))" by simp
  show "\<And>y. y \<in> snd ` set (b # xs) \<Longrightarrow> y \<le> snd (max_by_score b xs)"
    using max_by_score_ge by blast
  show "snd (max_by_score b xs) \<in> snd ` set (b # xs)"
    using max_by_score_mem by blast
qed

lemma patterns_nonempty: "\<forall>x \<in> set document_type_patterns. snd x \<noteq> []"
  by (simp add: document_type_patterns_def)

lemma type_scores_quotients:
  "type_scores low =
     map (\<lambda>(doc_type, patterns).
            (doc_type, of_nat (length (filter (\<lambda>pattern. re_search pattern low) patterns))
                         / of_nat (length patterns)))
       document_type_patterns"
  unfolding type_scores_def
  by (rule map_cong [OF refl]) (use patterns_nonempty in \<open>auto simp: pattern_score_def\<close>)

lemma type_scores_order:
  "map fst (type_scores low) =
     [ARTICLES_OF_ASSOCIATION, MEMORANDUM_OF_ASSOCIATION, INCORPORATION_APPLICATION,
      UBO_DECLARATION, BOARD_RESOLUTION, REGISTER_MEMBERS_DIRECTORS, SHAREHOLDER_RESOLUTION,
      CHANGE_ADDRESS_NOTICE, EMPLOYMENT_CONTRACT, COMMERCIAL_AGREEMENT, COMPLIANCE_POLICY]"
  by (simp add: type_scores_def document_type_patterns_def)

lemma type_scores_Cons: "\<exists>x xs. type_scores low = x # xs"
  using type_scores_order [of low] by (cases "type_scores low") auto

text \<open>
  C6. Every type is scored as the number of its patterns found in the lowered text, each
  pattern searched on its own, over the number of its patterns. When the greatest score
  is at least 0.30 the classifier returns a type with that score and the score as
  confidence; otherwise it returns Other with confidence 0.
\<close>

theorem identify_document_type_max_score:
  "type_scores (lower text) =
     map (\<lambda>(doc_type, patterns).
            (doc_type, of_nat (length (filter (\<lambda>pattern. re_search pattern (lower text)) patterns))
                         / of_nat (length patterns)))
       document_type_patterns
   \<and> (if 3 / 10 \<le> Max (snd ` set (type_scores (lower text)))
      then identify_document_type text \<in> set (type_scores (lower text))
           \<and> snd (identify_document_type text) = Max (snd ` set (type_scores (lower text)))
      else identify_document_type text = (OTHER, 0))"
proof -
  obtain x xs where sc: "type_scores (lower text) = x # xs" using type_scores_Cons by blast
  have m: "snd (max_by_score x xs) = Max (snd ` set (type_scores (lower text)))"
    unfolding sc by (rule max_by_score_Max)
  have mem: "max_by_score x xs \<in> set (type_scores (lower text))"
    unfolding sc by (rule max_by_score_mem)
  have "if 3 / 10 \<le> Max (snd ` set (type_scores (lower text)))
      then identify_document_type text \<in> set (type_scores (lower text))
           \<and> snd (identify_document_type text) = Max (snd ` set (type_scores (lower text)))
      else identify_document_type text = (OTHER, 0)"
    using m mem by (simp add: identify_document_type_def sc Let_def)
  with type_scores_quotients [of "lower text"] show ?thesis by blast
qed

text \<open>
  C10. The types are scored in the insertion order of the pattern table, Articles of
  Association first. When the greatest score is at least 0.30, the returned type has the
  greatest score and every type before it in that order has a strictly smaller score: of
  several types that tie for the greatest score, the earliest is returned.
\<close>

theorem identify_document_type_tie_first:
  "map fst (type_scores (lower text)) =
     [ARTICLES_OF_ASSOCIATION, MEMORANDUM_OF_ASSOCIATION, INCORPORATION_APPLICATION,
      UBO_DECLARATION, BOARD_RESOLUTION, REGISTER_MEMBERS_DIRECTORS, SHAREHOLDER_RESOLUTION,
      CHANGE_ADDRESS_NOTICE, EMPLOYMENT_CONTRACT, COMMERCIAL_AGREEMENT, COMPLIANCE_POLICY]
   \<and> (3 / 10 \<le> Max (snd ` set (type_scores (lower text))) \<longrightarrow>
        (\<exists>k < length (type_scores (lower text)).
            type_scores (lower text) ! k = identify_document_type text
          \<and> snd (identify_document_type text) = Max (snd ` set (type_scores (lower text)))
          \<and> (\<forall>j < k. snd (type_scores (lower text) ! j)
                         < Max (snd ` set (type_scores (lower text))))))"
proof -
  obtain x xs where sc: "type_scores (lower text) = x # xs" using type_scores_Cons by blast
  have m: "snd (max_by_score x xs) = Max (snd ` set (type_scores (lower text)))"
    unfolding sc by (rule max_by_score_Max)
  have "\<exists>k < length (type_scores (lower text)).
            type_scores (lower text) ! k = identify_document_type text
          \<and> snd (identify_document_type text) = Max (snd ` set (type_scores (lower text)))
          \<and> (\<forall>j < k. snd (type_scores (lower text) ! j)
                         < Max (snd ` set (type_scores (lower text))))"
    if ge: "3 / 10 \<le> Max (snd ` set (type_scores (lower text)))"
  proof -
    from ge m have id: "identify_document_type text = max_by_score x xs"
      by (simp add: identify_document_type_def sc Let_def)
    have mx: "Max (snd ` set (x # xs)) = snd (max_by_score x xs)"
      by (rule max_by_score_Max [symmetric])
    from max_by_score_first [of x xs]
    obtain k where "k < length (x # xs)" "(x # xs) ! k = max_by_score x xs"
      "\<forall>j < k. snd ((x # xs) ! j) < snd (max_by_score x xs)" by blast
    then have "k < length (x # xs) \<and> (x # xs) ! k = max_by_score x xs
      \<and> snd (max_by_score x xs) = snd (max_by_score x xs)
      \<and> (\<forall>j < k. snd ((x # xs) ! j) < snd (max_by_score x xs))" by blast
    then show ?thesis unfolding id sc mx by (rule exI)
  qed
  with type_scores_order [of "lower text"] show ?thesis by blast
qed

lemma tie_scores:
  "type_scores (lower tie_text) =
     [(ARTICLES_OF_ASSOCIATION, 0), (MEMORANDUM_OF_ASSOCIATION, 1 / 3),
      (INCORPORATION_APPLICATION, 1 / 3), (UBO_DECLARATION, 0), (BOARD_RESOLUTION, 0),
      (REGISTER_MEMBERS_DIRECTORS, 0), (SHAREHOLDER_RESOLUTION, 0), (CHANGE_ADDRESS_NOTICE, 0),
      (EMPLOYMENT_CONTRACT, 0), (COMMERCIAL_AGREEMENT, 0), (COMPLIANCE_POLICY, 0)]"
  by code_simp

lemma tie_max: "Max (snd ` set (type_scores (lower tie_text))) = 1 / 3"
  unfolding tie_scores by simp

lemma tie_identify: "identify_document_type tie_text = (MEMORANDUM_OF_ASSOCIATION, 1 / 3)"
  unfolding identify_document_type_def tie_scores by simp

lemma plain_scores:
  "type_scores (lower plain_text) =
     [(ARTICLES_OF_ASSOCIATION, 0), (MEMORANDUM_OF_ASSOCIATION, 0),
      (INCORPORATION_APPLICATION, 0), (UBO_DECLARATION, 0), (BOARD_RESOLUTION, 0),
      (REGISTER_MEMBERS_DIRECTORS, 0), (SHAREHOLDER_RESOLUTION, 0), (CHANGE_ADDRESS_NOTICE, 0),
      (EMPLOYMENT_CONTRACT, 0), (COMMERCIAL_AGREEMENT, 0), (COMPLIANCE_POLICY, 0)]"
  by code_simp

lemma plain_max: "Max (snd ` set (type_scores (lower plain_text))) = 0"
  unfolding plain_scores by simp

text \<open>C6 at a text whose greatest score is one third, and at a text that matches no pattern.\<close>

theorem identify_document_type_max_score_witness:
  "Max (snd ` set (type_scores (lower tie_text))) = 1 / 3
   \<and> identify_document_type tie_text \<in> set (type_scores (lower tie_text))
   \<and> snd (identify_document_type tie_text) = 1 / 3
   \<and> Max (snd ` set (type_scores (lower plain_text))) = 0
   \<and> identify_document_type plain_text = (OTHER, 0)"
proof -
  have "if 3 / 10 \<le> Max (snd ` set (type_scores (lower tie_text)))
      then identify_document_type tie_text \<in> set (type_scores (lower tie_text))
           \<and> snd (identify_document_type tie_text) = Max (snd ` set (type_scores (lower tie_text)))
      else identify_document_type tie_text = (OTHER, 0)"
    using identify_document_type_max_score [of tie_text] by (rule conjunct2)
  then have a: "identify_document_type tie_text \<in> set (type_scores (lower tie_text))
           \<and> snd (identify_document_type tie_text) = 1 / 3"
    unfolding tie_max by simp
  have "if 3 / 10 \<le> Max (snd ` set (type_scores (lower plain_text)))
      then identify_document_type plain_text \<in> set (type_scores (lower plain_text))
           \<and> snd (identify_document_type plain_text) = Max (snd ` set (type_scores (lower plain_text)))
      else identify_document_type plain_text = (OTHER, 0)"
    using identify_document_type_max_score [of plain_text] by (rule conjunct2)
  then have b: "identify_document_type plain_text = (OTHER, 0)"
    unfolding plain_max by simp
  from a b tie_max plain_max show ?thesis by blast
qed

text \<open>
  C10 at a text on which Memorandum of Association and Incorporation Application Form tie
  at one third: the earlier of the two is returned.
\<close>

theorem identify_document_type_tie_first_witness:
  "3 / 10 \<le> Max (snd ` set (type_scores (lower tie_text)))
   \<and> type_scores (lower tie_text) ! 1 = (MEMORANDUM_OF_ASSOCIATION, 1 / 3)
   \<and> type_scores (lower tie_text) ! 2 = (INCORPORATION_APPLICATION, 1 / 3)
   \<and> identify_document_type tie_text = (MEMORANDUM_OF_ASSOCIATION, 1 / 3)
   \<and> (\<exists>k < length (type_scores (lower tie_text)).
            type_scores (lower tie_text) ! k = identify_document_type tie_text
          \<and> snd (identify_document_type tie_text) = Max (snd ` set (type_scores (lower tie_text)))
          \<and> (\<forall>j < k. snd (type_scores (lower tie_text) ! j)
                         < Max (snd ` set (type_scores (lower tie_text)))))"
proof -
  have ge: "3 / 10 \<le> Max (snd ` set (type_scores (lower tie_text)))"
    unfolding tie_max by simp
  have a: "type_scores (lower tie_text) ! 1 = (MEMORANDUM_OF_ASSOCIATION, 1 / 3)"
    and b: "type_scores (lower tie_text) ! 2 = (INCORPORATION_APPLICATION, 1 / 3)"
    unfolding tie_scores by simp_all
  from identify_document_type_tie_first [of tie_text] ge a b tie_identify
  show ?thesis by blast
qed

section \<open>Properties of the completeness report\<close>

lemma completeness_loop_filter:
  "completeness_loop req names missing present =
     (missing @ filter (\<lambda>d. \<not> list_ex (documents_match d) names) req,
      present @ filter (\<lambda>d. list_ex (documents_match d) names) req)"
  by (induction req arbitrary: missing present) simp_all

lemma missing_is_required_minus_present:
  "filter (\<lambda>d. \<not> P d) req = filter (\<lambda>d. d \<notin> set (filter P req)) req"
  by (rule filter_cong) auto

lemma verify_fields:
  "c_present_documents (verify_document_completeness docs pt)
     = filter (\<lambda>d. list_ex (documents_match d) (map uploaded_doc_name docs)) (required_documents pt)"
  "c_missing_documents (verify_document_completeness docs pt)
     = filter (\<lambda>d. \<not> list_ex (documents_match d) (map uploaded_doc_name docs)) (required_documents pt)"
  "c_completeness_percentage (verify_document_completeness docs pt)
     = (if required_documents pt = [] then 100
        else of_nat (length (c_present_documents (verify_document_completeness docs pt)))
               / of_nat (length (required_documents pt)) * 100)"
  by (simp_all add: verify_document_completeness_def Let_def completeness_loop_filter)

lemma incorporation_matches:
  "documents_match ''Articles of Association'' ''Articles of Association''"
  "documents_match ''Memorandum of Association'' ''Memorandum of Association''"
  "\<not> documents_match ''UBO Declaration Form'' ''Articles of Association''"
  "\<not> documents_match ''UBO Declaration Form'' ''Memorandum of Association''"
  "\<not> documents_match ''Register of Members and Directors'' ''Articles of Association''"
  "\<not> documents_match ''Register of Members and Directors'' ''Memorandum of Association''"
  "\<not> documents_match ''Board Resolution Templates'' ''Articles of Association''"
  "\<not> documents_match ''Board Resolution Templates'' ''Memorandum of Association''"
  by code_simp+

lemma incorporation_required:
  "required_documents COMPANY_INCORPORATION =
     [''Articles of Association'', ''Memorandum of Association'', ''UBO Declaration Form'',
      ''Register of Members and Directors'', ''Board Resolution Templates'']"
  by (simp add: required_documents_def ADGM_PROCESS_REQUIREMENTS_def)

lemma batch_names:
  assumes "set (map pd_document_type docs) = {Some ARTICLES_OF_ASSOCIATION, Some MEMORANDUM_OF_ASSOCIATION}"
  shows "set (map uploaded_doc_name docs) = {''Articles of Association'', ''Memorandum of Association''}"
proof -
  have "set (map uploaded_doc_name docs)
          = (\<lambda>t. doc_type_value (case t of None \<Rightarrow> OTHER | Some t \<Rightarrow> t)) ` set (map pd_document_type docs)"
    by (auto simp: uploaded_doc_name_def image_iff)
  also have "\<dots> = {''Articles of Association'', ''Memorandum of Association''}"
    unfolding assms by simp
  finally show ?thesis .
qed

lemma batch_present:
  assumes "set (map pd_document_type docs) = {Some ARTICLES_OF_ASSOCIATION, Some MEMORANDUM_OF_ASSOCIATION}"
  shows "filter (\<lambda>d. list_ex (documents_match d) (map uploaded_doc_name docs))
            (required_documents COMPANY_INCORPORATION)
          = [''Articles of Association'', ''Memorandum of Association'']"
    and "filter (\<lambda>d. \<not> list_ex (documents_match d) (map uploaded_doc_name docs))
            (required_documents COMPANY_INCORPORATION)
          = [''UBO Declaration Form'', ''Register of Members and Directors'',
             ''Board Resolution Templates'']"
  unfolding incorporation_required list_ex_iff batch_names [OF assms]
  using incorporation_matches by simp_all

text \<open>
  C5. In the completeness report the present list is the required documents matched by
  some uploaded type name, the missing list is the required list without the present ones,
  both in the order of the requirement list, and the percentage is present over required
  times 100, or 100 when the process has no requirements. For a batch classified as
  Articles of Association and Memorandum of Association under Company Incorporation, which
  requires five documents, the percentage is 40 and the missing list is the other three
  required types in requirement order.
\<close>

theorem verify_document_completeness_report:
  "c_present_documents (verify_document_completeness docs pt)
     = filter (\<lambda>d. list_ex (documents_match d) (map uploaded_doc_name docs)) (required_documents pt)
   \<and> c_missing_documents (verify_document_completeness docs pt)
     = filter (\<lambda>d. d \<notin> set (c_present_documents (verify_document_completeness docs pt)))
         (required_documents pt)
   \<and> c_completeness_percentage (verify_document_completeness docs pt)
     = (if required_documents pt = [] then 100
        else of_nat (length (c_present_documents (verify_document_completeness docs pt)))
               / of_nat (length (required_documents pt)) * 100)
   \<and> length (required_documents COMPANY_INCORPORATION) = 5
   \<and> (set (map pd_document_type docs) = {Some ARTICLES_OF_ASSOCIATION, Some MEMORANDUM_OF_ASSOCIATION}
        \<longrightarrow> c_completeness_percentage (verify_document_completeness docs COMPANY_INCORPORATION) = 40
          \<and> c_missing_documents (verify_document_completeness docs COMPANY_INCORPORATION)
              = [''UBO Declaration Form'', ''Register of Members and Directors'',
                 ''Board Resolution Templates''])"
proof -
  have miss: "c_missing_documents (verify_document_completeness docs pt)
     = filter (\<lambda>d. d \<notin> set (c_present_documents (verify_document_completeness docs pt)))
         (required_documents pt)"
    unfolding verify_fields by (rule missing_is_required_minus_present)
  have five: "length (required_documents COMPANY_INCORPORATION) = 5"
    unfolding incorporation_required by simp
  have scen: "c_completeness_percentage (verify_document_completeness docs COMPANY_INCORPORATION) = 40
          \<and> c_missing_documents (verify_document_completeness docs COMPANY_INCORPORATION)
              = [''UBO Declaration Form'', ''Register of Members and Directors'',
                 ''Board Resolution Templates'']"
    if b: "set (map pd_document_type docs) = {Some ARTICLES_OF_ASSOCIATION, Some MEMORANDUM_OF_ASSOCIATION}"
  proof -
    have "c_completeness_percentage (verify_document_completeness docs COMPANY_INCORPORATION) = 40"
      unfolding verify_fields batch_present [OF b] unfolding incorporation_required by simp
    moreover have "c_missing_documents (verify_document_completeness docs COMPANY_INCORPORATION)
              = [''UBO Declaration Form'', ''Register of Members and Directors'',
                 ''Board Resolution Templates'']"
      unfolding verify_fields batch_present [OF b] by (rule refl)
    ultimately show ?thesis by blast
  qed
  from verify_fields(1) [of docs pt] miss verify_fields(3) [of docs pt] five scen
  show ?thesis by blast
qed

text \<open>C5 at a batch of one Articles and one Memorandum of Association.\<close>

theorem verify_document_completeness_report_witness:
  "set (map pd_document_type [aoa_doc, moa_doc])
      = {Some ARTICLES_OF_ASSOCIATION, Some MEMORANDUM_OF_ASSOCIATION}
   \<and> c_completeness_percentage (verify_document_completeness [aoa_doc, moa_doc] COMPANY_INCORPORATION) = 40
   \<and> c_missing_documents (verify_document_completeness [aoa_doc, moa_doc] COMPANY_INCORPORATION)
       = [''UBO Declaration Form'', ''Register of Members and Directors'',
          ''Board Resolution Templates'']"
proof -
  have b: "set (map pd_document_type [aoa_doc, moa_doc])
      = {Some ARTICLES_OF_ASSOCIATION, Some MEMORANDUM_OF_ASSOCIATION}"
    by (simp add: aoa_doc_def moa_doc_def)
  from verify_document_completeness_report [of "[aoa_doc, moa_doc]" COMPANY_INCORPORATION] b
  show ?thesis by blast
qed

section \<open>Failure of a check inside the rule engine\<close>

text \<open>
  C7, as amended. The rule engine has no handler of its own. When the formatting check
  raises, \<open>check_compliance\<close> raises the same exception and returns no issues; when it does
  not, \<open>check_compliance\<close> returns the issues of the five checks in the order jurisdiction,
  required clauses, formatting, red flags, registration and style. An exception of
  \<open>check_compliance\<close> is caught one level up, per document: the analysis then carries an
  empty issue list and the score 0.
\<close>

theorem check_compliance_no_handler:
  "(case check_formatting document_text sc ty of
      Inl e \<Rightarrow> check_compliance document_text ty sc = Inl e
    | Inr formatting \<Rightarrow>
        check_compliance document_text ty sc =
          Inr (check_jurisdiction document_text ty @ check_required_clauses document_text ty @ formatting
               @ detect_red_flags document_text ty @ check_adgm_specific_requirements document_text ty))
   \<and> (pd_document_type doc = Some ty
        \<and> check_compliance (pd_text_content doc) ty (pd_structured_content doc) = Inl e
      \<longrightarrow> analyze_single_document doc rag_issues red_flags = basic_analysis doc
          \<and> da_issues (analyze_single_document doc rag_issues red_flags) = []
          \<and> da_compliance_score (analyze_single_document doc rag_issues red_flags) = 0)"
  by (auto simp: check_compliance_def analyze_single_document_def basic_analysis_def Let_def
           split: sum.splits)

lemma broken_eval:
  "check_formatting dubai_text broken_sections ARTICLES_OF_ASSOCIATION = Inl (KeyError ''text'')"
  by code_simp

text \<open>
  The amended C7 at a document whose structured content has a section without a text: the
  rule engine raises \<open>KeyError\<close>, and the analysis of the document has no issues and score 0.
\<close>

theorem check_compliance_no_handler_witness:
  "pd_document_type broken_doc = Some ARTICLES_OF_ASSOCIATION
   \<and> check_compliance (pd_text_content broken_doc) ARTICLES_OF_ASSOCIATION
        (pd_structured_content broken_doc) = Inl (KeyError ''text'')
   \<and> da_issues (analyze_single_document broken_doc [] []) = []
   \<and> da_compliance_score (analyze_single_document broken_doc [] []) = 0"
proof -
  have a: "pd_document_type broken_doc = Some ARTICLES_OF_ASSOCIATION"
    and t: "pd_text_content broken_doc = dubai_text"
    and s: "pd_structured_content broken_doc = broken_sections"
    by (simp_all add: broken_doc_def)
  from check_compliance_no_handler
         [where document_text = dubai_text and sc = broken_sections and ty = ARTICLES_OF_ASSOCIATION]
  have c: "check_compliance dubai_text ARTICLES_OF_ASSOCIATION broken_sections = Inl (KeyError ''text'')"
    unfolding broken_eval by simp
  from check_compliance_no_handler
         [where document_text = dubai_text and sc = broken_sections and ty = ARTICLES_OF_ASSOCIATION
            and doc = broken_doc and e = "KeyError ''text''" and rag_issues = "[]"
            and red_flags = "[]"]
  have "pd_document_type broken_doc = Some ARTICLES_OF_ASSOCIATION
        \<and> check_compliance (pd_text_content broken_doc) ARTICLES_OF_ASSOCIATION
              (pd_structured_content broken_doc) = Inl (KeyError ''text'')
      \<longrightarrow> analyze_single_document broken_doc [] [] = basic_analysis broken_doc
          \<and> da_issues (analyze_single_document broken_doc [] []) = []
          \<and> da_compliance_score (analyze_single_document broken_doc [] []) = 0"
    by (rule conjunct2)
  moreover have "check_compliance (pd_text_content broken_doc) ARTICLES_OF_ASSOCIATION
              (pd_structured_content broken_doc) = Inl (KeyError ''text'')"
    using c t s by simp
  ultimately show ?thesis using a by blast
qed

text \<open>
  C7 as stated fails: on this input the jurisdiction check produces two issues and the
  formatting check raises; \<open>check_compliance\<close> raises and returns neither of the two.
\<close>

theorem check_compliance_failure_counterexample:
  "check_jurisdiction dubai_text ARTICLES_OF_ASSOCIATION
     = [incorrect_jurisdiction_issue ARTICLES_OF_ASSOCIATION ''dubai courts'',
        missing_jurisdiction_issue ARTICLES_OF_ASSOCIATION]
   \<and> check_formatting dubai_text broken_sections ARTICLES_OF_ASSOCIATION = Inl (KeyError ''text'')
   \<and> check_compliance dubai_text ARTICLES_OF_ASSOCIATION broken_sections = Inl (KeyError ''text'')"
  using dubai_text_eval(3) broken_eval by (simp add: check_compliance_def)

section \<open>Properties of the annotator\<close>

lemma find_index_of_Some:
  "find_index_of k s = Some i \<Longrightarrow> i + length k \<le> length s \<and> take (length k) (drop i s) = k"
proof (induction s arbitrary: i)
  case Nil
  then show ?case by (simp split: if_splits)
next
  case (Cons c cs)
  show ?case
  proof (cases "strip_prefix k (c # cs)")
    case (Some r)
    then have "c # cs = k @ r" by (simp add: strip_prefix_Some)
    moreover from Some Cons.prems have "i = 0" by simp
    ultimately show ?thesis by simp
  next
    case None
    with Cons.prems obtain j where j: "find_index_of k cs = Some j" "i = Suc j" by auto
    from Cons.IH [OF j(1)] j(2) show ?thesis by simp
  qed
qed

lemma py_in_find_index_of: "py_in k s \<Longrightarrow> \<exists>i. find_index_of k s = Some i"
  by (induction s) auto

lemma length_lower: "length (lower s) = length s"
  by (simp add: lower_def)

lemma lower_take: "lower (take n s) = take n (lower s)"
  by (simp add: lower_def take_map)

lemma lower_drop: "lower (drop n s) = drop n (lower s)"
  by (simp add: lower_def drop_map)

lemma para_text_plain: "r_text (plain_run t) = t" "r_highlight (plain_run t) = False"
  by (simp_all add: plain_run_def)

lemma para_text_highlighted: "r_text (highlighted_run t) = t" "r_highlight (highlighted_run t) = True"
  by (simp_all add: highlighted_run_def plain_run_def)

lemma highlight_found:
  assumes "find_index_of (lower h) (lower (para_text p)) = Some i"
    and "py_in (lower h) (lower (para_text p))"
  shows "highlight_text_in_paragraph p h =
           (if 0 < i then [plain_run (take i (para_text p))] else [])
           @ [highlighted_run (take (length h) (drop i (para_text p)))]
           @ (if i + length h < length (para_text p)
              then [plain_run (drop (i + length h) (para_text p))] else [])"
  using assms by (simp add: highlight_text_in_paragraph_def Let_def)

lemma highlight_keeps_text: "para_text (highlight_text_in_paragraph p h) = para_text p"
proof (cases "py_in (lower h) (lower (para_text p))")
  case False
  then show ?thesis by (simp add: highlight_text_in_paragraph_def Let_def)
next
  case True
  then obtain i where i: "find_index_of (lower h) (lower (para_text p)) = Some i"
    using py_in_find_index_of by blast
  from find_index_of_Some [OF i] have le: "i + length h \<le> length (para_text p)"
    by (simp add: length_lower)
  let ?t = "para_text p"
  have split3: "take i ?t @ take (length h) (drop i ?t) @ drop (i + length h) ?t = ?t"
    by (metis append_take_drop_id drop_drop add.commute)
  have "para_text (highlight_text_in_paragraph p h)
          = take i ?t @ take (length h) (drop i ?t) @ drop (i + length h) ?t"
    unfolding highlight_found [OF i True] using le
    by (auto simp: para_text_def para_text_plain para_text_highlighted)
  with split3 show ?thesis by simp
qed

lemma highlight_split:
  assumes "py_in (lower h) (lower (para_text p))"
  shows "\<exists>before m after. para_text p = before @ m @ after \<and> lower m = lower h
            \<and> map r_text (highlight_text_in_paragraph p h)
                = filter (\<lambda>s. s \<noteq> []) [before] @ [m] @ filter (\<lambda>s. s \<noteq> []) [after]
            \<and> filter r_highlight (highlight_text_in_paragraph p h) = [highlighted_run m]"
proof -
  from assms obtain i where i: "find_index_of (lower h) (lower (para_text p)) = Some i"
    using py_in_find_index_of by blast
  let ?t = "para_text p"
  let ?b = "take i ?t" and ?m = "take (length h) (drop i ?t)" and ?a = "drop (i + length h) ?t"
  from find_index_of_Some [OF i]
  have le: "i + length h \<le> length ?t" and occ: "take (length h) (drop i (lower ?t)) = lower h"
    by (simp_all add: length_lower)
  have "?b @ ?m @ ?a = ?t"
    by (metis append_take_drop_id drop_drop add.commute)
  moreover have "lower ?m = lower h"
    using occ by (simp add: lower_take lower_drop)
  moreover have "map r_text (highlight_text_in_paragraph p h)
                = filter (\<lambda>s. s \<noteq> []) [?b] @ [?m] @ filter (\<lambda>s. s \<noteq> []) [?a]"
    unfolding highlight_found [OF i assms] using le
    by (auto simp: para_text_plain para_text_highlighted)
  moreover have "filter r_highlight (highlight_text_in_paragraph p h) = [highlighted_run ?m]"
    unfolding highlight_found [OF i assms] by (simp add: para_text_plain para_text_highlighted)
  ultimately show ?thesis by metis
qed

lemma insert_comment_subseq:
  "subseq (map para_text doc) (map para_text (insert_comment doc ins))"
proof (cases "ins_paragraph_index ins < length doc")
  case False
  then show ?thesis by (simp add: insert_comment_def Let_def)
next
  case True
  let ?i = "ins_paragraph_index ins"
  let ?x = "if truthy (ins_highlight_text ins)
            then highlight_text_in_paragraph (doc ! ?i) (the (ins_highlight_text ins))
            else doc ! ?i"
  have x: "para_text ?x = para_text (doc ! ?i)" by (simp add: highlight_keeps_text)
  have d: "doc = take ?i doc @ [doc ! ?i] @ drop (Suc ?i) doc"
    using True by (simp add: id_take_nth_drop [symmetric])
  have "map para_text (insert_comment doc ins)
          = map para_text (take ?i doc) @ [para_text (doc ! ?i), para_text [comment_run ins]]
            @ map para_text (drop (Suc ?i) doc)"
    using True x by (simp add: insert_comment_def Let_def)
  moreover have "map para_text doc
          = map para_text (take ?i doc) @ [para_text (doc ! ?i)] @ map para_text (drop (Suc ?i) doc)"
    by (subst d) (simp del: append_take_drop_id)
  moreover have "subseq (map para_text (take ?i doc) @ [para_text (doc ! ?i)] @ map para_text (drop (Suc ?i) doc))
      (map para_text (take ?i doc) @ [para_text (doc ! ?i), para_text [comment_run ins]]
            @ map para_text (drop (Suc ?i) doc))"
    by (intro list_emb_append_mono) (auto intro: list_emb_refl)
  ultimately show ?thesis by simp
qed

lemma insert_comments_subseq:
  "subseq (map para_text doc) (map para_text (foldl insert_comment doc inss))"
proof (induction inss arbitrary: doc)
  case Nil
  then show ?case by (simp add: list_emb_refl)
next
  case (Cons ins inss)
  have "subseq (map para_text doc) (map para_text (insert_comment doc ins))"
    by (rule insert_comment_subseq)
  moreover have "subseq (map para_text (insert_comment doc ins))
      (map para_text (foldl insert_comment (insert_comment doc ins) inss))"
    by (rule Cons.IH)
  ultimately show ?case by (simp add: subseq_order.order_trans)
qed

lemma add_summary_subseq:
  "subseq (map para_text doc) (map para_text (add_summary_section b doc issues))"
proof (cases doc)
  case Nil
  then show ?thesis by (simp add: add_summary_section_def)
next
  case (Cons p ps)
  have "\<exists>pre. add_summary_section b doc issues = pre @ doc"
    using Cons by (cases b) (simp_all add: add_summary_section_def)
  then obtain pre where "add_summary_section b doc issues = pre @ doc" by blast
  then show ?thesis by (simp add: subseq_drop_many list_emb_refl)
qed

text \<open>
  C8. Whatever the issues, the texts of the original paragraphs occur in the annotated
  document in their order and unchanged, so the annotated document has at least as many
  paragraphs. Highlighting keeps the text of a paragraph: when the highlight text occurs,
  read without regard to case, the paragraph is rebuilt as the text before the match, the
  match, carrying the highlight, and the text after it, and the three concatenate to the
  text the paragraph had.
\<close>

theorem annotate_document_keeps_paragraphs:
  "subseq (map para_text doc)
     (map para_text (annotate_document set_order insert_after doc issues document_text))
   \<and> length doc \<le> length (annotate_document set_order insert_after doc issues document_text)
   \<and> para_text (highlight_text_in_paragraph p h) = para_text p
   \<and> (py_in (lower h) (lower (para_text p)) \<longrightarrow>
        (\<exists>before m after. para_text p = before @ m @ after \<and> lower m = lower h
            \<and> map r_text (highlight_text_in_paragraph p h)
                = filter (\<lambda>s. s \<noteq> []) [before] @ [m] @ filter (\<lambda>s. s \<noteq> []) [after]
            \<and> filter r_highlight (highlight_text_in_paragraph p h) = [highlighted_run m]))"
proof -
  let ?ins = "sort_insertions (create_comment_insertions set_order issues doc)"
  have a: "subseq (map para_text doc) (map para_text (foldl insert_comment doc ?ins))"
    by (rule insert_comments_subseq)
  have b: "subseq (map para_text (foldl insert_comment doc ?ins))
      (map para_text (annotate_document set_order insert_after doc issues document_text))"
    unfolding annotate_document_def Let_def by (rule add_summary_subseq)
  from a b have s: "subseq (map para_text doc)
     (map para_text (annotate_document set_order insert_after doc issues document_text))"
    by (rule subseq_order.order_trans)
  from list_emb_length [OF s]
  have l: "length doc \<le> length (annotate_document set_order insert_after doc issues document_text)"
    by simp
  from s l highlight_keeps_text [of p h] highlight_split [of h p] show ?thesis by blast
qed

lemma courts_paragraph_eval:
  "py_in (lower ''DUBAI'') (lower (para_text courts_paragraph))"
  "map r_text (highlight_text_in_paragraph courts_paragraph ''DUBAI'')
     = [''Disputes go to '', ''Dubai'', '' Courts'']"
  "map r_highlight (highlight_text_in_paragraph courts_paragraph ''DUBAI'') = [False, True, False]"
  "length (annotate_document remdups False sample_doc sample_issues []) = 5"
  by code_simp+

text \<open>
  C8 at a paragraph of two runs that reads "Disputes go to Dubai Courts", highlighted for
  "DUBAI", and at a document of two paragraphs annotated for two issues.
\<close>

theorem annotate_document_keeps_paragraphs_witness:
  "py_in (lower ''DUBAI'') (lower (para_text courts_paragraph))
   \<and> map r_text (highlight_text_in_paragraph courts_paragraph ''DUBAI'')
       = [''Disputes go to '', ''Dubai'', '' Courts'']
   \<and> map r_highlight (highlight_text_in_paragraph courts_paragraph ''DUBAI'') = [False, True, False]
   \<and> para_text (highlight_text_in_paragraph courts_paragraph ''DUBAI'') = para_text courts_paragraph
   \<and> length sample_doc = 2
   \<and> length (annotate_document remdups False sample_doc sample_issues []) = 5
   \<and> subseq (map para_text sample_doc)
        (map para_text (annotate_document remdups False sample_doc sample_issues []))"
proof -
  have two: "length sample_doc = 2" by (simp add: sample_doc_def)
  from annotate_document_keeps_paragraphs
         [where doc = sample_doc and set_order = remdups and insert_after = False
            and issues = sample_issues and document_text = "[]"
            and p = courts_paragraph and h = "''DUBAI''"]
       courts_paragraph_eval two
  show ?thesis by blast
qed

section \<open>The summary block\<close>

lemma sample_summary_content:
  "create_summary_content sample_issues =
     [ icon_total @ '' Total Issues Found: 2'',
       '''',
       severity_emoji HIGH @ '' High: 2 issue(s)'',
       '''',
       icon_key @ '' Key Issues:'',
       ''1. Incorrect jurisdiction reference: '' @ [CHR 0x27] @ ''dubai courts'' @ [CHR 0x27],
       ''2. Missing ADGM jurisdiction clause'',
       '''',
       icon_review @ '' Please review the detailed comments throughout the document for specific guidance.'',
       '''' ]"
  by code_simp

lemma sample_doc_texts:
  "map para_text sample_doc = [''Share capital is AED 100'', ''Disputes go to Dubai Courts'']"
  by code_simp

lemma sample_annotated_head:
  "map para_text (take 2 (annotate_document remdups False sample_doc sample_issues []))
     = [''ADGM COMPLIANCE REVIEW SUMMARY'', ''Share capital is AED 100'']"
  "map para_text (take 3 (annotate_document remdups True sample_doc sample_issues []))
     = [''ADGM COMPLIANCE REVIEW SUMMARY'', replicate 80 (CHR ''=''), '''']"
  by code_simp+

text \<open>
  C9 says that the annotated document starts with the summary block, its lines in the
  order of the summary content and a separator after them. The summary content for two
  High issues is built in that order. In the document the block is not: with the document
  library as it is, only the title paragraph stands before the first original paragraph;
  with a library that offers \<open>insert_paragraph_after\<close>, the separator follows the title and
  the lines follow in reverse order.
\<close>

theorem summary_block_misplaced:
  "create_summary_content sample_issues =
     [ icon_total @ '' Total Issues Found: 2'',
       '''',
       severity_emoji HIGH @ '' High: 2 issue(s)'',
       '''',
       icon_key @ '' Key Issues:'',
       ''1. Incorrect jurisdiction reference: '' @ [CHR 0x27] @ ''dubai courts'' @ [CHR 0x27],
       ''2. Missing ADGM jurisdiction clause'',
       '''',
       icon_review @ '' Please review the detailed comments throughout the document for specific guidance.'',
       '''' ]
   \<and> map para_text (add_summary_section False sample_doc sample_issues)
       = [''ADGM COMPLIANCE REVIEW SUMMARY'', ''Share capital is AED 100'',
          ''Disputes go to Dubai Courts'']
   \<and> map para_text (add_summary_section True sample_doc sample_issues)
       = ''ADGM COMPLIANCE REVIEW SUMMARY'' # replicate 80 (CHR ''='')
         # rev (create_summary_content sample_issues)
         @ [''Share capital is AED 100'', ''Disputes go to Dubai Courts'']
   \<and> map para_text (take 2 (annotate_document remdups False sample_doc sample_issues []))
       = [''ADGM COMPLIANCE REVIEW SUMMARY'', ''Share capital is AED 100'']
   \<and> map para_text (take 3 (annotate_document remdups True sample_doc sample_issues []))
       = [''ADGM COMPLIANCE REVIEW SUMMARY'', replicate 80 (CHR ''=''), '''']"
proof -
  have ne: "sample_doc \<noteq> []" by (simp add: sample_doc_def)
  then obtain p ps where d: "sample_doc = p # ps" by (cases sample_doc) auto
  have f: "map para_text (add_summary_section False sample_doc sample_issues)
       = [''ADGM COMPLIANCE REVIEW SUMMARY'', ''Share capital is AED 100'',
          ''Disputes go to Dubai Courts'']"
    using sample_doc_texts
    by (simp add: add_summary_section_def d para_text_def title_run_def)
  have t: "map para_text (add_summary_section True sample_doc sample_issues)
       = ''ADGM COMPLIANCE REVIEW SUMMARY'' # replicate 80 (CHR ''='')
         # rev (create_summary_content sample_issues)
         @ [''Share capital is AED 100'', ''Disputes go to Dubai Courts'']"
    using sample_doc_texts
    by (simp add: add_summary_section_def d para_text_def title_run_def separator_run_def
          plain_run_def rev_map comp_def)
  from sample_summary_content f t sample_annotated_head show ?thesis by blast
qed

end
